theory Spec2Isabelle
  imports Main "HOL-Library.Sublist"
begin

section \<open>Inline preview: splitting the source into text and math parts\<close>

text \<open>
  The preview component (\<open>processLatex\<close>) scans the source with the global regular expression
  \<^verbatim>\<open>/(\$\$[^$]*\$\$|\\\[[^]*?\\\]|\\\([^]*?\\\)|\$[^$\n]+?\$)/g\<close>
  and pushes \<open>{type, content}\<close> objects onto an array. Strings are lists of code units;
  the expression has no anchor and no look-around, so whether it matches at an index depends
  only on the suffix of the string that starts there.
\<close>

datatype part_type = Text | Math

datatype MathPart = MathPart (type_of: part_type) (content: string)

text \<open>First alternative, \<^verbatim>\<open>\$\$[^$]*\$\$\<close>: the greedy class run stops at the first dollar
  sign, which must start the closing pair. The result is the length of the match.\<close>

definition match_display_dollar :: "string \<Rightarrow> nat option" where
  "match_display_dollar s =
     (case s of
        a # b # t \<Rightarrow>
          if a = CHR ''$'' \<and> b = CHR ''$'' then
            (case dropWhile (\<lambda>c. c \<noteq> CHR ''$'') t of
               c # d # _ \<Rightarrow>
                 if c = CHR ''$'' \<and> d = CHR ''$''
                 then Some (2 + length (takeWhile (\<lambda>c. c \<noteq> CHR ''$'') t) + 2)
                 else None
             | _ \<Rightarrow> None)
          else None
      | _ \<Rightarrow> None)"

text \<open>Offset of the first backslash followed by the closing bracket \<open>cl\<close>: where the lazy
  \<^verbatim>\<open>[^]*?\<close> of the second and third alternatives stops.\<close>

fun find_close :: "char \<Rightarrow> string \<Rightarrow> nat option" where
  "find_close cl (x # y # t) =
     (if x = CHR 0x5C \<and> y = cl then Some 0 else map_option Suc (find_close cl (y # t)))"
| "find_close cl _ = None"

text \<open>Second and third alternatives, \<^verbatim>\<open>\\\[[^]*?\\\]\<close> and \<^verbatim>\<open>\\\([^]*?\\\)\<close>.\<close>

definition match_bracket :: "char \<Rightarrow> char \<Rightarrow> string \<Rightarrow> nat option" where
  "match_bracket opn cl s =
     (case s of
        a # b # t \<Rightarrow>
          if a = CHR 0x5C \<and> b = opn then map_option (\<lambda>j. 2 + j + 2) (find_close cl t)
          else None
      | _ \<Rightarrow> None)"

text \<open>Fourth alternative, \<^verbatim>\<open>\$[^$\n]+?\$\<close>: at least one code unit that is neither a dollar
  sign nor a line feed, then a dollar sign.\<close>

definition match_inline_dollar :: "string \<Rightarrow> nat option" where
  "match_inline_dollar s =
     (case s of
        a # t \<Rightarrow>
          if a = CHR ''$'' then
            (let body = takeWhile (\<lambda>c. c \<noteq> CHR ''$'' \<and> c \<noteq> CHR 0x0A) t in
             if body \<noteq> [] \<and> (case drop (length body) t of c # _ \<Rightarrow> c = CHR ''$'' | [] \<Rightarrow> False)
             then Some (1 + length body + 1)
             else None)
          else None
      | [] \<Rightarrow> None)"

text \<open>The alternatives are tried in the order in which the expression lists them.\<close>

definition match_at :: "string \<Rightarrow> nat option" where
  "match_at s =
     (case match_display_dollar s of Some n \<Rightarrow> Some n
      | None \<Rightarrow>
     (case match_bracket (CHR ''['') (CHR '']'') s of Some n \<Rightarrow> Some n
      | None \<Rightarrow>
     (case match_bracket (CHR ''('') (CHR '')'') s of Some n \<Rightarrow> Some n
      | None \<Rightarrow> match_inline_dollar s)))"

text \<open>Leftmost match in a string: its offset and its length.\<close>

fun search :: "string \<Rightarrow> (nat \<times> nat) option" where
  "search [] = None"
| "search (c # t) =
     (case match_at (c # t) of
        Some n \<Rightarrow> Some (0, n)
      | None \<Rightarrow> map_option (\<lambda>(i, n). (Suc i, n)) (search t))"

text \<open>\<open>mathRegex.exec(code)\<close> with the expression's \<open>lastIndex\<close>: \<open>match.index\<close> and
  \<open>match[0]\<close>, or \<open>null\<close>.\<close>

definition mathRegex_exec :: "string \<Rightarrow> nat \<Rightarrow> (nat \<times> string) option" where
  "mathRegex_exec code lastIndex =
     (if lastIndex > length code then None
      else map_option (\<lambda>(i, n). (lastIndex + i, take n (drop (lastIndex + i) code)))
             (search (drop lastIndex code)))"

text \<open>\<open>code.slice(a, b)\<close> for \<open>a \<le> b\<close> within the string.\<close>

definition slice :: "string \<Rightarrow> nat \<Rightarrow> nat \<Rightarrow> string" where
  "slice code a b = take (b - a) (drop a code)"

subsection \<open>Bounds on a match, needed for the termination of the scanning loop\<close>

lemma find_close_bound: "find_close cl t = Some j \<Longrightarrow> j + 2 \<le> length t"
  by (induction cl t arbitrary: j rule: find_close.induct) (auto split: if_splits)

lemma takeWhile_dropWhile_length: "length (takeWhile P t) + length (dropWhile P t) = length t"
  by (metis length_append takeWhile_dropWhile_id)

lemma match_display_dollar_bounds:
  assumes "match_display_dollar s = Some n"
  shows "4 \<le> n \<and> n \<le> length s"
proof -
  from assms obtain t where s: "s = CHR ''$'' # CHR ''$'' # t"
    by (auto simp: match_display_dollar_def split: list.splits if_splits)
  from assms s obtain r where d: "dropWhile (\<lambda>c. c \<noteq> CHR ''$'') t = CHR ''$'' # CHR ''$'' # r"
    and n: "n = 2 + length (takeWhile (\<lambda>c. c \<noteq> CHR ''$'') t) + 2"
    by (auto simp: match_display_dollar_def split: list.splits if_splits)
  from takeWhile_dropWhile_length [of "\<lambda>c. c \<noteq> CHR ''$''" t] d n s show ?thesis by simp
qed

lemma match_bracket_bounds: "match_bracket opn cl s = Some n \<Longrightarrow> 4 \<le> n \<and> n \<le> length s"
  by (auto simp: match_bracket_def split: list.splits if_splits dest: find_close_bound)

lemma match_inline_dollar_bounds:
  assumes "match_inline_dollar s = Some n"
  shows "3 \<le> n \<and> n \<le> length s"
proof -
  from assms obtain t where s: "s = CHR ''$'' # t"
    by (auto simp: match_inline_dollar_def split: list.splits if_splits)
  let ?b = "takeWhile (\<lambda>c. c \<noteq> CHR ''$'' \<and> c \<noteq> CHR 0x0A) t"
  from assms s have b: "?b \<noteq> []" and d: "drop (length ?b) t \<noteq> []" and n: "n = 1 + length ?b + 1"
    by (auto simp: match_inline_dollar_def Let_def split: list.splits if_splits)
  from d have "length ?b < length t" by simp
  with b n s show ?thesis by (cases ?b) auto
qed

lemma match_at_bounds: "match_at s = Some n \<Longrightarrow> 3 \<le> n \<and> n \<le> length s"
  unfolding match_at_def
  by (auto split: option.splits
      dest: match_display_dollar_bounds match_bracket_bounds match_inline_dollar_bounds)

lemma search_bounds: "search s = Some (i, n) \<Longrightarrow> 3 \<le> n \<and> i + n \<le> length s"
  by (induction s arbitrary: i) (auto split: option.splits dest: match_at_bounds)

lemma exec_bounds:
  "mathRegex_exec code lastIndex = Some (index, m) \<Longrightarrow>
     lastIndex \<le> index \<and> 3 \<le> length m \<and> index + length m \<le> length code"
  by (auto simp: mathRegex_exec_def split: if_splits dest!: search_bounds)

subsection \<open>The scanning loop of \<open>processLatex\<close>\<close>

text \<open>
  \<^verbatim>\<open>
  while ((match = mathRegex.exec(code)) !== null) {
    if (match.index > lastIndex)
      parts.push({ type: 'text', content: code.slice(lastIndex, match.index) });
    parts.push({ type: 'math', content: match[0] });
    lastIndex = match.index + match[0].length;
  }
  if (lastIndex < code.length)
    parts.push({ type: 'text', content: code.slice(lastIndex) });
  \<close>
  The loop state is \<open>lastIndex\<close> and the array \<open>parts\<close>. Every match has at least three
  code units, so the expression's own \<open>lastIndex\<close> is the variable of the same name.
\<close>

function split_loop :: "string \<Rightarrow> nat \<Rightarrow> MathPart list \<Rightarrow> nat \<times> MathPart list" where
  "split_loop code lastIndex parts =
     (case mathRegex_exec code lastIndex of
        None \<Rightarrow> (lastIndex, parts)
      | Some (index, m) \<Rightarrow>
          split_loop code (index + length m)
            ((if index > lastIndex
              then parts @ [MathPart Text (slice code lastIndex index)]
              else parts) @ [MathPart Math m]))"
  by pat_completeness auto
termination
  by (relation "measure (\<lambda>(code, lastIndex, parts). length code - lastIndex)")
     (auto dest!: exec_bounds)

definition split_parts :: "string \<Rightarrow> MathPart list" where
  "split_parts code =
     (case split_loop code 0 [] of
        (lastIndex, parts) \<Rightarrow>
          if lastIndex < length code
          then parts @ [MathPart Text (drop lastIndex code)]
          else parts)"

section \<open>Inline preview: building the HTML\<close>

text \<open>\<open>s.replace(/c/g, r)\<close> for a pattern that is the single code unit \<open>c\<close>.\<close>

definition replace_all :: "char \<Rightarrow> string \<Rightarrow> string \<Rightarrow> string" where
  "replace_all c r s = concat (map (\<lambda>x. if x = c then r else [x]) s)"

text \<open>
  The text branch of the loop over the parts:
  \<^verbatim>\<open>
  part.content.replace(/&/g, '&amp;').replace(/</g, '&lt;')
              .replace(/>/g, '&gt;').replace(/\n/g, '<br>')
  \<close>
\<close>

definition escape_text :: "string \<Rightarrow> string" where
  "escape_text s =
     replace_all (CHR 0x0A) ''<br>''
       (replace_all (CHR ''>'') ''&gt;''
         (replace_all (CHR ''<'') ''&lt;''
           (replace_all (CHR ''&'') ''&amp;'' s)))"

text \<open>\<open>s.replace(/^OPN|CL$/g, '')\<close>: an opening delimiter at the start and a closing one at
  the end of what is left are removed.\<close>

definition strip_delims :: "string \<Rightarrow> string \<Rightarrow> string \<Rightarrow> string" where
  "strip_delims opn cl s =
     (let r = (if prefix opn s then drop (length opn) s else s)
      in if suffix cl r then take (length r - length cl) r else r)"

definition mathContent :: "string \<Rightarrow> string" where
  "mathContent c =
     strip_delims [CHR 0x5C, CHR ''(''] [CHR 0x5C, CHR '')'']
       (strip_delims [CHR 0x5C, CHR ''[''] [CHR 0x5C, CHR '']'']
         (strip_delims ''$$'' ''$$'' c))"

definition displayMode :: "string \<Rightarrow> bool" where
  "displayMode c = (prefix ''$$'' c \<or> prefix [CHR 0x5C, CHR ''[''] c)"

text \<open>
  What \<open>importKatex()\<close> resolves to: \<open>null\<close>, a module with \<open>renderToString\<close> (which returns
  HTML, \<open>Inr\<close>, or throws an error with a message, \<open>Inl\<close>), or a module without it.
\<close>

datatype katex =
    KatexNull
  | KatexRender "string \<Rightarrow> bool \<Rightarrow> string + string"
  | KatexOther

text \<open>The string that one iteration of \<open>for (const part of parts)\<close> appends to \<open>html\<close>.\<close>

definition part_html :: "katex \<Rightarrow> MathPart \<Rightarrow> string" where
  \<open>part_html k part =
     (if type_of part = Text then escape_text (content part)
      else
        (case k of
           KatexRender renderToString \<Rightarrow>
             (case renderToString (mathContent (content part)) (displayMode (content part)) of
                Inr h \<Rightarrow> h
              | Inl message \<Rightarrow>
                  ''<span class="text-red-500">Error rendering math: '' @ message @ ''</span>'')
         | _ \<Rightarrow>
             if displayMode (content part)
             then [CHR 0x5C, CHR ''[''] @ mathContent (content part) @ [CHR 0x5C, CHR '']'']
             else [CHR 0x5C, CHR ''(''] @ mathContent (content part) @ [CHR 0x5C, CHR '')'']))\<close>

definition processLatex :: "katex \<Rightarrow> string \<Rightarrow> string" where
  "processLatex k code =
     (case k of
        KatexNull \<Rightarrow> ''Error loading KaTeX''
      | _ \<Rightarrow> foldl (\<lambda>html part. html @ part_html k part) [] (split_parts code))"

text \<open>The escaping as the specification words it, one code unit at a time: the entity for
  each of \<open>&\<close>, \<open><\<close> and \<open>>\<close>, a \<open><br>\<close> tag for a line feed, every other code unit itself.\<close>

definition escape_char :: "char \<Rightarrow> string" where
  "escape_char c =
     (if c = CHR ''&'' then ''&amp;''
      else if c = CHR ''<'' then ''&lt;''
      else if c = CHR ''>'' then ''&gt;''
      else if c = CHR 0x0A then ''<br>''
      else [c])"

text \<open>
  An invariant for the proofs about the scanning loop: in a list of parts laid end to end
  over the string \<open>s\<close>, every math part is a match of the expression at the offset where
  the part begins.
\<close>

fun matches_ok :: "string \<Rightarrow> MathPart list \<Rightarrow> bool" where
  "matches_ok s [] = True"
| "matches_ok s (p # ps) =
     ((type_of p = Math \<longrightarrow> match_at s = Some (length (content p)))
      \<and> matches_ok (drop (length (content p)) s) ps)"

section \<open>The compile endpoint: \<open>POST /api/compile\<close>\<close>

type_synonym bytes = string
type_synonym path = string

text \<open>What a \<open>throw\<close> carries: an \<open>Error\<close> with its message, or some other value.\<close>

datatype exn = Error string | NonError

text \<open>\<open>Date.now()\<close> inside the template literal: the decimal digits of the number.\<close>

function decimal :: "nat \<Rightarrow> string" where
  "decimal n =
     (if n < 10 then [''0123456789'' ! n]
      else decimal (n div 10) @ [''0123456789'' ! (n mod 10)])"
  by pat_completeness auto
termination
  by (relation "measure (\<lambda>n. n)") auto

declare decimal.simps [simp del]

text \<open>\<open>join(tempDir, name)\<close> for a directory path without a trailing separator.\<close>

definition join :: "path \<Rightarrow> string \<Rightarrow> path" where
  "join dir name = dir @ ''/'' @ name"

text \<open>\<open>s.replace(/\.old$/, '.new')\<close>: the extension is replaced when the string ends
  with it.\<close>

definition replace_ext :: "string \<Rightarrow> string \<Rightarrow> string \<Rightarrow> string" where
  "replace_ext old new s =
     (if suffix old s then take (length s - length old) s @ new else s)"

text \<open>\<open>buffer.toString('base64')\<close>: three octets become four characters of the
  alphabet, and the last group is padded with \<open>=\<close>.\<close>

definition base64_alphabet :: string where
  "base64_alphabet = ''ABCDEFGHIJKLMNOPQRSTUVWXYZabcdefghijklmnopqrstuvwxyz0123456789+/''"

fun base64_octets :: "nat list \<Rightarrow> string" where
  "base64_octets [] = []"
| "base64_octets [a] =
     [base64_alphabet ! (a div 4), base64_alphabet ! ((a mod 4) * 16), CHR ''='', CHR ''='']"
| "base64_octets [a, b] =
     [base64_alphabet ! (a div 4), base64_alphabet ! ((a mod 4) * 16 + b div 16),
      base64_alphabet ! ((b mod 16) * 4), CHR ''='']"
| "base64_octets (a # b # c # rest) =
     [base64_alphabet ! (a div 4), base64_alphabet ! ((a mod 4) * 16 + b div 16),
      base64_alphabet ! ((b mod 16) * 4 + c div 64), base64_alphabet ! (c mod 64)]
     @ base64_octets rest"

definition toString_base64 :: "bytes \<Rightarrow> string" where
  "toString_base64 buffer = base64_octets (map of_char buffer)"

text \<open>
  The server's surroundings: the files on disk, whether the temporary directory can be
  written, and the command lines of the processes spawned so far.
\<close>

record server =
  files :: "path \<rightharpoonup> bytes"
  writable :: bool
  spawned :: "string list list"

definition quoted :: "string \<Rightarrow> string" where
  "quoted s = [CHR 0x27] @ s @ [CHR 0x27]"

definition writeFile :: "path \<Rightarrow> bytes \<Rightarrow> server \<Rightarrow> exn + server" where
  "writeFile p data sv =
     (if writable sv then Inr (sv\<lparr>files := (files sv)(p \<mapsto> data)\<rparr>)
      else Inl (Error (''EACCES: permission denied, open '' @ quoted p)))"

definition readFile :: "path \<Rightarrow> server \<Rightarrow> exn + bytes" where
  "readFile p sv =
     (case files sv p of
        None \<Rightarrow> Inl (Error (''ENOENT: no such file or directory, open '' @ quoted p))
      | Some data \<Rightarrow> Inr data)"

text \<open>\<open>fs.unlink(p).catch(() => {})\<close>: the file is removed; a rejection is swallowed.\<close>

definition unlink :: "path \<Rightarrow> server \<Rightarrow> server" where
  "unlink p sv = sv\<lparr>files := (files sv)(p := None)\<rparr>"

text \<open>
  The external compiler is a parameter. From its arguments and the files on disk, either
  the process cannot be started (the binary is missing or not executable) and the child
  emits \<open>error\<close>, or it runs and the \<open>close\<close> event reports its exit code (\<open>null\<close> when a
  signal ended it), with what it wrote to its two streams and the files it leaves on disk.
\<close>

record proc_result =
  exit_code :: "int option"
  stderr_text :: string
  stdout_text :: string
  written :: "(path \<times> bytes) list"

datatype child = LaunchFailed | Closed proc_result

type_synonym compiler = "string list \<Rightarrow> (path \<rightharpoonup> bytes) \<Rightarrow> child"

definition spawn :: "compiler \<Rightarrow> string \<Rightarrow> string list \<Rightarrow> server \<Rightarrow> child \<times> server" where
  "spawn tool command args sv =
     (case tool args (files sv) of
        LaunchFailed \<Rightarrow> (LaunchFailed, sv\<lparr>spawned := spawned sv @ [command # args]\<rparr>)
      | Closed res \<Rightarrow>
          (Closed res,
           sv\<lparr>files := foldl (\<lambda>m (p, data). m(p \<mapsto> data)) (files sv) (written res),
              spawned := spawned sv @ [command # args]\<rparr>))"

datatype request = BadBody exn | Body "string option"

text \<open>The body of a response is a JSON object with string fields: \<open>{ pdf: ... }\<close> is
  \<open>[(''pdf'', ...)]\<close> and \<open>{ error: ... }\<close> is \<open>[(''error'', ...)]\<close>. A response is the status
  with the body; \<open>NextResponse.json\<close> without a status gives 200.\<close>

type_synonym body = "(string \<times> string) list"

type_synonym response = "nat \<times> body"

text \<open>How the \<open>try\<close> block of \<open>POST\<close> ends: it returns a response, it throws, or the promise
  it awaits is never settled.\<close>

datatype settled = Returns response | Throws exn | Never

definition tempFile_of :: "path \<Rightarrow> nat \<Rightarrow> path" where
  "tempFile_of tempDir now = join tempDir (''latex-'' @ decimal now @ ''.tex'')"

definition outputFile_of :: "path \<Rightarrow> nat \<Rightarrow> path" where
  "outputFile_of tempDir now = replace_ext ''.tex'' ''.pdf'' (tempFile_of tempDir now)"

definition latex_args :: "path \<Rightarrow> nat \<Rightarrow> string list" where
  "latex_args tempDir now =
     [''-interaction=nonstopmode'', ''-halt-on-error'',
      ''-output-directory='' @ tempDir, tempFile_of tempDir now]"

text \<open>
  The \<open>try\<close> block of \<open>POST\<close>. It throws the rejection of \<open>request.json()\<close> or of
  \<open>writeFile\<close>, or the rejection of the promise around the compiler, whose \<open>close\<close> handler
  throws on a non-zero exit code and when the output file cannot be read, and removes the
  four files only after both. The child has listeners for the data of its two streams and
  for \<open>close\<close> only: when the process cannot be started, \<open>error\<close> is emitted without a
  listener, \<open>close\<close> does not follow, and the promise is neither resolved nor rejected.
\<close>

definition POST_try :: "compiler \<Rightarrow> path \<Rightarrow> nat \<Rightarrow> request \<Rightarrow> server \<Rightarrow> settled \<times> server" where
  "POST_try pdflatex tempDir now req sv =
     (case req of
        BadBody e \<Rightarrow> (Throws e, sv)
      | Body None \<Rightarrow> (Returns (400, [(''error'', ''No content provided'')]), sv)
      | Body (Some content') \<Rightarrow>
          if content' = [] then (Returns (400, [(''error'', ''No content provided'')]), sv)
          else
            (let tempFile = tempFile_of tempDir now;
                 outputFile = outputFile_of tempDir now
             in case writeFile tempFile content' sv of
                  Inl e \<Rightarrow> (Throws e, sv)
                | Inr sv1 \<Rightarrow>
                    (case spawn pdflatex ''pdflatex'' (latex_args tempDir now) sv1 of
                       (LaunchFailed, sv2) \<Rightarrow> (Never, sv2)
                     | (Closed res, sv2) \<Rightarrow>
                         if exit_code res \<noteq> Some 0
                         then (Throws (Error (''LaTeX compilation failed: ''
                                 @ (if stderr_text res \<noteq> [] then stderr_text res
                                    else stdout_text res))), sv2)
                         else
                           (case readFile outputFile sv2 of
                              Inl e \<Rightarrow> (Throws e, sv2)
                            | Inr pdf \<Rightarrow>
                                (Returns (200, [(''pdf'', toString_base64 pdf)]),
                                 unlink (replace_ext ''.pdf'' ''.aux'' outputFile)
                                   (unlink (replace_ext ''.pdf'' ''.log'' outputFile)
                                     (unlink outputFile (unlink tempFile sv2))))))))"

text \<open>\<open>POST\<close> with its \<open>catch\<close>: whatever is thrown becomes a response with status 500.
  \<open>None\<close>: the handler never responds.\<close>

definition POST :: "compiler \<Rightarrow> path \<Rightarrow> nat \<Rightarrow> request \<Rightarrow> server \<Rightarrow> response option \<times> server" where
  "POST pdflatex tempDir now req sv =
     (case POST_try pdflatex tempDir now req sv of
        (Returns resp, sv') \<Rightarrow> (Some resp, sv')
      | (Throws e, sv') \<Rightarrow>
          (Some (500, [(''error'', (case e of Error message \<Rightarrow> message
                                     | NonError \<Rightarrow> ''Failed to compile LaTeX''))]), sv')
      | (Never, sv') \<Rightarrow> (None, sv'))"

text \<open>The compiler's run for one request: the source file is on disk, then the process
  runs. This is the prefix of \<open>POST_try\<close> up to the \<open>close\<close> event.\<close>

definition run_compiler :: "compiler \<Rightarrow> path \<Rightarrow> nat \<Rightarrow> string \<Rightarrow> server \<Rightarrow> child \<times> server" where
  "run_compiler pdflatex tempDir now content' sv =
     spawn pdflatex ''pdflatex'' (latex_args tempDir now)
       (sv\<lparr>files := (files sv)(tempFile_of tempDir now \<mapsto> content')\<rparr>)"

text \<open>
  Runs of the compiler used as examples, for a request stamped \<open>1700000000123\<close> in
  \<open>/tmp\<close>: one that writes the PDF, the log and the auxiliary file and exits with 0, one
  that stops at an undefined control sequence, writes only the log and exits with 1,
  one that exits with 0 without a PDF, and a machine without the binary; and two sources
  to post.
\<close>

definition pdflatex_succeeds :: compiler where
  "pdflatex_succeeds args fs =
     Closed \<lparr>exit_code = Some 0, stderr_text = [], stdout_text = ''Output written'',
      written = [(''/tmp/latex-1700000000123.pdf'', ''%PDF-1.5''),
                 (''/tmp/latex-1700000000123.log'', ''This is pdfTeX''),
                 (''/tmp/latex-1700000000123.aux'', CHR 0x5C # ''relax'')]\<rparr>"

definition pdflatex_fails :: compiler where
  "pdflatex_fails args fs =
     Closed \<lparr>exit_code = Some 1, stderr_text = [],
      stdout_text = ''! Undefined control sequence.'',
      written = [(''/tmp/latex-1700000000123.log'', ''This is pdfTeX'')]\<rparr>"

definition pdflatex_no_output :: compiler where
  "pdflatex_no_output args fs =
     Closed \<lparr>exit_code = Some 0, stderr_text = [], stdout_text = ''No pages of output.'',
      written = [(''/tmp/latex-1700000000123.log'', ''This is pdfTeX''),
                 (''/tmp/latex-1700000000123.aux'', CHR 0x5C # ''relax'')]\<rparr>"

definition pdflatex_missing :: compiler where
  "pdflatex_missing args fs = LaunchFailed"

definition good_source :: string where
  "good_source = CHR 0x5C # ''documentclass{article}'' @ CHR 0x5C # ''begin{document}Hi''
     @ CHR 0x5C # ''end{document}''"

definition bad_source :: string where
  "bad_source = CHR 0x5C # ''documentclass{article}'' @ CHR 0x5C # ''begin{document}''
     @ CHR 0x5C # ''oops'' @ CHR 0x5C # ''end{document}''"

definition empty_server :: server where
  "empty_server = \<lparr>files = Map.empty, writable = True, spawned = []\<rparr>"

section \<open>The document store (\<open>documentService.ts\<close>)\<close>

record Document =
  doc_id :: string
  doc_title :: string
  doc_content :: string
  updatedAt :: string
  createdAt :: string

definition DOCUMENTS_KEY :: string where
  "DOCUMENTS_KEY = ''latex_editor_documents''"

text \<open>
  The browser's \<open>localStorage\<close> as the service meets it: there is no \<open>window\<close> (server-side
  rendering), access throws (storage denied), or it holds strings under keys.
\<close>

datatype localStorage = NoWindow | Denied | Items "string \<rightharpoonup> string"

text \<open>\<open>safeLocalStorage.getItem\<close>: \<open>null\<close> without a window and when the access throws.\<close>

definition safeLocalStorage_getItem :: "localStorage \<Rightarrow> string \<Rightarrow> string option" where
  "safeLocalStorage_getItem ls key =
     (case ls of NoWindow \<Rightarrow> None | Denied \<Rightarrow> None | Items m \<Rightarrow> m key)"

text \<open>\<open>safeLocalStorage.setItem\<close>: nothing happens without a window and when the access
  throws.\<close>

definition safeLocalStorage_setItem :: "localStorage \<Rightarrow> string \<Rightarrow> string \<Rightarrow> localStorage" where
  "safeLocalStorage_setItem ls key v =
     (case ls of NoWindow \<Rightarrow> NoWindow | Denied \<Rightarrow> Denied | Items m \<Rightarrow> Items (m(key \<mapsto> v)))"

text \<open>
  \<open>JSON.parse\<close> and \<open>JSON.stringify\<close> belong to the platform and are parameters. A parse
  throws (\<open>None\<close>) or yields a value, of which the service only asks whether it is an array;
  the array's elements are taken at the declared type \<open>Document[]\<close>.
\<close>

datatype json = JArray "Document list" | JOther

type_synonym json_parse = "string \<Rightarrow> json option"
type_synonym json_stringify = "Document list \<Rightarrow> string"

text \<open>The \<open>try\<close> block of \<open>getDocuments\<close>: \<open>Inl\<close> is what it throws.\<close>

definition getDocuments_try :: "json_parse \<Rightarrow> localStorage \<Rightarrow> exn + Document list" where
  "getDocuments_try JSON_parse ls =
     (case safeLocalStorage_getItem ls DOCUMENTS_KEY of
        None \<Rightarrow> Inr []
      | Some docsJson \<Rightarrow>
          if docsJson = [] then Inr []
          else
            (case JSON_parse docsJson of
               None \<Rightarrow> Inl (Error ''SyntaxError'')
             | Some parsed \<Rightarrow> Inr (case parsed of JArray docs \<Rightarrow> docs | JOther \<Rightarrow> [])))"

text \<open>\<open>getDocuments\<close> with its \<open>catch\<close>, which returns the empty array.\<close>

definition getDocuments :: "json_parse \<Rightarrow> localStorage \<Rightarrow> exn + Document list" where
  "getDocuments JSON_parse ls =
     (case getDocuments_try JSON_parse ls of
        Inl e \<Rightarrow> Inr []
      | Inr docs \<Rightarrow> Inr docs)"

text \<open>The argument of \<open>saveDocument\<close>: a document without its stamps, the \<open>id\<close> optional.\<close>

record doc_input =
  in_id :: "string option"
  in_title :: string
  in_content :: string

text \<open>\<open>docs.findIndex(pred)\<close>; \<open>None\<close> stands for \<open>-1\<close>.\<close>

fun findIndex :: "('a \<Rightarrow> bool) \<Rightarrow> 'a list \<Rightarrow> nat option" where
  "findIndex pred [] = None"
| "findIndex pred (x # xs) = (if pred x then Some 0 else map_option Suc (findIndex pred xs))"

text \<open>
  \<open>saveDocument\<close>. \<open>now\<close> is \<open>new Date().toISOString()\<close> and \<open>millis\<close> is \<open>Date.now()\<close>. The
  \<open>catch\<close> logs and throws again, so what the \<open>try\<close> block throws is what the function
  throws. The result is the saved document and the storage after \<open>setItem\<close>.
\<close>

definition saveDocument ::
  "json_parse \<Rightarrow> json_stringify \<Rightarrow> string \<Rightarrow> nat \<Rightarrow> localStorage \<Rightarrow> doc_input
     \<Rightarrow> exn + Document \<times> localStorage" where
  "saveDocument JSON_parse JSON_stringify now millis ls doc =
     (case getDocuments JSON_parse ls of
        Inl e \<Rightarrow> Inl e
      | Inr docs \<Rightarrow>
          (case in_id doc of
             Some ident \<Rightarrow>
               if ident \<noteq> [] then
                 (case findIndex (\<lambda>d. doc_id d = ident) docs of
                    None \<Rightarrow> Inl (Error ''Document not found'')
                  | Some index \<Rightarrow>
                      (let updatedDoc = (docs ! index)
                             \<lparr>doc_id := ident, doc_title := in_title doc,
                              doc_content := in_content doc, updatedAt := now\<rparr>
                       in Inr (updatedDoc,
                            safeLocalStorage_setItem ls DOCUMENTS_KEY
                              (JSON_stringify (docs[index := updatedDoc])))))
               else
                 (let newDoc = \<lparr>doc_id = ''doc_'' @ decimal millis, doc_title = in_title doc,
                                 doc_content = in_content doc, updatedAt = now,
                                 createdAt = now\<rparr>
                  in Inr (newDoc,
                       safeLocalStorage_setItem ls DOCUMENTS_KEY
                         (JSON_stringify (docs @ [newDoc]))))
           | None \<Rightarrow>
               (let newDoc = \<lparr>doc_id = ''doc_'' @ decimal millis, doc_title = in_title doc,
                               doc_content = in_content doc, updatedAt = now,
                               createdAt = now\<rparr>
                in Inr (newDoc,
                     safeLocalStorage_setItem ls DOCUMENTS_KEY
                       (JSON_stringify (docs @ [newDoc]))))))"

section \<open>The editor component with the PDF preview (\<open>Editor.tsx\<close>)\<close>

text \<open>
  The state of the component that \<open>compileLatex\<close> reads and writes, together with the
  browser's registry of object URLs: \<open>URL.createObjectURL\<close> registers a blob under a fresh
  URL and \<open>URL.revokeObjectURL\<close> releases it. A URL is a number here; the empty string of
  the source, which is its "no URL", is \<open>None\<close>.
\<close>

type_synonym url = nat

record editor =
  pdfUrl :: "url option"
  isCompiling :: bool
  error :: "string option"
  pdfUrlRef :: "url option"
  objectUrls :: "url \<rightharpoonup> bytes"
  nextUrl :: url

definition createObjectURL :: "bytes \<Rightarrow> 'a editor_scheme \<Rightarrow> url \<times> 'a editor_scheme" where
  "createObjectURL blob s =
     (nextUrl s, s\<lparr>objectUrls := (objectUrls s)(nextUrl s \<mapsto> blob), nextUrl := Suc (nextUrl s)\<rparr>)"

definition revokeObjectURL :: "url \<Rightarrow> 'a editor_scheme \<Rightarrow> 'a editor_scheme" where
  "revokeObjectURL u s = s\<lparr>objectUrls := (objectUrls s)(u := None)\<rparr>"

text \<open>
  How the request of one \<open>compileLatex\<close> call ends: something in the \<open>try\<close> block throws
  (\<open>fetch\<close>, \<open>response.json()\<close> or \<open>atob\<close>); the response is not \<open>ok\<close> and its body has the
  given \<open>error\<close> field (empty when absent); or the response is \<open>ok\<close> and \<open>atob\<close> of its \<open>pdf\<close>
  field gives the bytes.
\<close>

datatype compile_outcome = Threw exn | NotOk string | Decoded bytes

text \<open>\<open>!code.trim()\<close>: the source consists of white space only.\<close>

definition is_blank :: "string \<Rightarrow> bool" where
  "is_blank code =
     list_all (\<lambda>c. c \<in> set [CHR 0x09, CHR 0x0A, CHR 0x0B, CHR 0x0C, CHR 0x0D, CHR 0x20, CHR 0xA0])
       code"

text \<open>\<open>compileLatex(code)\<close> up to its \<open>await fetch\<close>: whether a request has been sent, and
  the state.\<close>

definition compileLatex_start :: "string \<Rightarrow> editor \<Rightarrow> bool \<times> editor" where
  "compileLatex_start code s =
     (if is_blank code then (False, s\<lparr>pdfUrl := None, pdfUrlRef := None\<rparr>)
      else (True, s\<lparr>isCompiling := True, error := None\<rparr>))"

text \<open>The \<open>catch\<close> block of \<open>compileLatex\<close>, followed by its \<open>finally\<close>: the error is set and
  both \<open>pdfUrl\<close> and the reference are cleared.\<close>

definition compile_failed :: "string \<Rightarrow> editor \<Rightarrow> editor" where
  "compile_failed message s =
     s\<lparr>error := Some message, pdfUrl := None, pdfUrlRef := None, isCompiling := False\<rparr>"

text \<open>
  \<open>compileLatex\<close> from the point where its request ends. On success the previous URL is
  revoked and a new one is created and shown. A response that is not \<open>ok\<close> throws
  \<open>new Error(errorData.error || 'Failed to compile LaTeX')\<close>, and the \<open>catch\<close> block shows
  the message of an \<open>Error\<close> and the fixed text for anything else.
\<close>

definition compileLatex_settle :: "compile_outcome \<Rightarrow> editor \<Rightarrow> editor" where
  "compileLatex_settle outcome s =
     (case outcome of
        Decoded pdf \<Rightarrow>
          (let s1 = (case pdfUrlRef s of Some old \<Rightarrow> revokeObjectURL old s | None \<Rightarrow> s)
           in case createObjectURL pdf s1 of
                (newPdfUrl, s2) \<Rightarrow>
                  s2\<lparr>pdfUrlRef := Some newPdfUrl, pdfUrl := Some newPdfUrl,
                     isCompiling := False\<rparr>)
      | NotOk e \<Rightarrow> compile_failed (if e \<noteq> [] then e else ''Failed to compile LaTeX'') s
      | Threw (Error message) \<Rightarrow> compile_failed message s
      | Threw NonError \<Rightarrow> compile_failed ''Failed to compile LaTeX'' s)"

text \<open>The message shown for an outcome, if it is a failure.\<close>

fun failure_message :: "compile_outcome \<Rightarrow> string option" where
  "failure_message (Threw (Error message)) = Some message"
| "failure_message (Threw NonError) = Some ''Failed to compile LaTeX''"
| "failure_message (NotOk e) = Some (if e \<noteq> [] then e else ''Failed to compile LaTeX'')"
| "failure_message (Decoded pdf) = None"

text \<open>
  A history of the component: calls of \<open>compileLatex\<close> and the ends of their requests, in
  the order in which the event loop runs them. Each event carries the number of its
  request, counted in the order of the calls; the component keeps no such number, and no
  step reads it.
\<close>

datatype event = Issue nat string | Settle nat compile_outcome

fun editor_step :: "editor \<Rightarrow> event \<Rightarrow> editor" where
  "editor_step s (Issue n code) = snd (compileLatex_start code s)"
| "editor_step s (Settle n outcome) = compileLatex_settle outcome s"

definition editor_run :: "editor \<Rightarrow> event list \<Rightarrow> editor" where
  "editor_run s events = foldl editor_step s events"

text \<open>The document that the preview pane can show: the blob behind \<open>pdfUrl\<close>.\<close>

definition shown_pdf :: "'a editor_scheme \<Rightarrow> bytes option" where
  "shown_pdf s = (case pdfUrl s of None \<Rightarrow> None | Some u \<Rightarrow> objectUrls s u)"

definition initial_editor :: editor where
  "initial_editor =
     \<lparr>pdfUrl = None, isCompiling = False, error = None, pdfUrlRef = None,
      objectUrls = Map.empty, nextUrl = 0\<rparr>"

section \<open>The editor component with saved documents\<close>

text \<open>
  The later version of the component keeps a document in the store. Its state extends the
  one above by the document, the title and content being edited, the flags, the pending
  timer of \<open>compileLatex\<close> (with the content its callback will post) and the storage.
\<close>

record doc_editor = editor +
  document :: "Document option"
  title :: string
  editor_content :: string
  isSaving :: bool
  isNew :: bool
  compileTimeout :: "string option"
  storage :: localStorage

definition docToSave :: "doc_editor \<Rightarrow> doc_input" where
  "docToSave s =
     \<lparr>in_id = map_option doc_id (document s),
      in_title = (if title s \<noteq> [] then title s else ''Untitled Document''),
      in_content = editor_content s\<rparr>"

text \<open>\<open>saveCurrentDocument\<close>: the saved document, or \<open>None\<close> for \<open>undefined\<close> and \<open>null\<close>.\<close>

definition saveCurrentDocument ::
  "json_parse \<Rightarrow> json_stringify \<Rightarrow> string \<Rightarrow> nat \<Rightarrow> doc_editor \<Rightarrow> Document option \<times> doc_editor" where
  "saveCurrentDocument JSON_parse JSON_stringify now millis s =
     (if editor_content s = [] then (None, s)
      else
        (case saveDocument JSON_parse JSON_stringify now millis (storage s) (docToSave s) of
           Inr (savedDoc, ls) \<Rightarrow>
             (Some savedDoc,
              s\<lparr>storage := ls, document := Some savedDoc, isNew := False, isSaving := False\<rparr>)
         | Inl e \<Rightarrow>
             (None, s\<lparr>error := Some ''Failed to save document'', isSaving := False\<rparr>)))"

text \<open>
  \<open>compileLatex\<close> of this version up to the point where it has armed its timer:
  \<^verbatim>\<open>
  const savedDoc = await saveCurrentDocument();
  if (!savedDoc) { setIsCompiling(false); return; }
  compileTimeout.current = setTimeout(async () => { ... fetch ... }, 500);
  \<close>
\<close>

definition doc_compileLatex ::
  "json_parse \<Rightarrow> json_stringify \<Rightarrow> string \<Rightarrow> nat \<Rightarrow> doc_editor \<Rightarrow> doc_editor" where
  "doc_compileLatex JSON_parse JSON_stringify now millis s =
     (if editor_content s = [] then s
      else
        (case saveCurrentDocument JSON_parse JSON_stringify now millis
                (s\<lparr>isCompiling := True, error := None, compileTimeout := None\<rparr>) of
           (None, s1) \<Rightarrow> s1\<lparr>isCompiling := False\<rparr>
         | (Some savedDoc, s1) \<Rightarrow> s1\<lparr>compileTimeout := Some (doc_content savedDoc)\<rparr>))"

text \<open>The timer fires: the content that the callback posts to the compile endpoint.\<close>

definition doc_timeout_fires :: "doc_editor \<Rightarrow> string option \<times> doc_editor" where
  "doc_timeout_fires s = (compileTimeout s, s\<lparr>compileTimeout := None\<rparr>)"

text \<open>The callback from the point where its request ends. Its \<open>catch\<close> block only sets the
  error.\<close>

definition doc_compile_settle :: "compile_outcome \<Rightarrow> doc_editor \<Rightarrow> doc_editor" where
  "doc_compile_settle outcome s =
     (case outcome of
        Decoded pdf \<Rightarrow>
          (let s1 = (case pdfUrlRef s of Some old \<Rightarrow> revokeObjectURL old s | None \<Rightarrow> s)
           in case createObjectURL pdf s1 of
                (u, s2) \<Rightarrow> s2\<lparr>pdfUrlRef := Some u, pdfUrl := Some u, isCompiling := False\<rparr>)
      | _ \<Rightarrow>
          s\<lparr>error := Some ''Failed to compile LaTeX. Please check your syntax.'',
            isCompiling := False\<rparr>)"

section \<open>Example values\<close>

text \<open>
  Stand-ins for the platform's \<open>JSON.parse\<close> and \<open>JSON.stringify\<close> in the examples, which
  meet only the texts \<open>[]\<close>, \<open>{}\<close> and \<open>{oops\<close> and the empty array. The theorems hold for
  every pair of functions.
\<close>

definition example_parse :: json_parse where
  "example_parse s =
     (if s = ''[]'' then Some (JArray []) else if s = ''{}'' then Some JOther else None)"

definition example_stringify :: json_stringify where
  "example_stringify docs = (if docs = [] then ''[]'' else ''[{...}]'')"

text \<open>The source of the examples after a further edit.\<close>

definition revised_source :: string where
  "revised_source = CHR 0x5C # ''documentclass{article}'' @ CHR 0x5C # ''begin{document}Hi again''
     @ CHR 0x5C # ''end{document}''"

text \<open>
  An editor whose document was loaded from the store under the identifier \<open>doc_17\<close>, after
  which the store has lost it (it was deleted in another tab, or the site data were
  cleared); and an editor on a new document that has not been saved yet.
\<close>

definition orphaned_editor :: doc_editor where
  "orphaned_editor =
     \<lparr>pdfUrl = None, isCompiling = False, error = None, pdfUrlRef = None,
      objectUrls = Map.empty, nextUrl = 0,
      document = Some \<lparr>doc_id = ''doc_17'', doc_title = ''Notes'', doc_content = good_source,
                        updatedAt = ''2024-01-01T00:00:00.000Z'',
                        createdAt = ''2024-01-01T00:00:00.000Z''\<rparr>,
      title = ''Notes'', editor_content = good_source, isSaving = False, isNew = False,
      compileTimeout = None, storage = Items Map.empty\<rparr>"

definition new_doc_editor :: doc_editor where
  "new_doc_editor =
     \<lparr>pdfUrl = None, isCompiling = False, error = None, pdfUrlRef = None,
      objectUrls = Map.empty, nextUrl = 0,
      document = None, title = ''Untitled Document'', editor_content = good_source,
      isSaving = False, isNew = True, compileTimeout = None, storage = Items Map.empty\<rparr>"

section \<open>The split is a partition of the source\<close>

lemma exec_match_text:
  "mathRegex_exec code lastIndex = Some (index, m) \<Longrightarrow> m = slice code index (index + length m)"
  by (auto simp: mathRegex_exec_def slice_def min_def split: if_splits)

lemma slice_append:
  assumes "a \<le> b" and "b \<le> c"
  shows "slice code a b @ slice code b c = slice code a c"
proof -
  have d: "drop b code = drop (b - a) (drop a code)"
    using assms(1) by simp
  have "take (c - a) (drop a code) = take ((b - a) + (c - b)) (drop a code)"
    using assms by simp
  also have "\<dots> = take (b - a) (drop a code) @ take (c - b) (drop (b - a) (drop a code))"
    by (rule take_add)
  finally show ?thesis
    unfolding slice_def d by simp
qed

lemma slice_same [simp]: "slice code a a = []"
  by (simp add: slice_def)

lemma take_as_slice: "take n code = slice code 0 n"
  by (simp add: slice_def)

text \<open>Loop invariant: the parts pushed so far spell the source up to \<open>lastIndex\<close>.\<close>

lemma split_loop_invariant:
  "lastIndex \<le> length code \<Longrightarrow> concat (map content parts) = take lastIndex code \<Longrightarrow>
   split_loop code lastIndex parts = (li, ps) \<Longrightarrow>
     li \<le> length code \<and> concat (map content ps) = take li code"
proof (induction code lastIndex parts rule: split_loop.induct)
  case (1 code lastIndex parts)
  show ?case
  proof (cases "mathRegex_exec code lastIndex")
    case None
    with "1.prems" show ?thesis by simp
  next
    case (Some r)
    obtain index m where r: "r = (index, m)" by (cases r)
    note ex = Some [unfolded r]
    from exec_bounds [OF ex] have b: "lastIndex \<le> index" "index + length m \<le> length code"
      by simp_all
    let ?parts = "(if index > lastIndex
              then parts @ [MathPart Text (slice code lastIndex index)]
              else parts) @ [MathPart Math m]"
    have "concat (map content ?parts) = take lastIndex code @ slice code lastIndex index @ m"
      using "1.prems"(2) b(1) by (cases "index = lastIndex") auto
    also have "\<dots> = slice code 0 lastIndex @ slice code lastIndex index
                       @ slice code index (index + length m)"
      using exec_match_text [OF ex] by (simp add: take_as_slice)
    also have "\<dots> = slice code 0 (index + length m)"
      using b by (simp add: slice_append)
    finally have inv: "concat (map content ?parts) = take (index + length m) code"
      by (simp add: take_as_slice)
    have "split_loop code (index + length m) ?parts = (li, ps)"
      using "1.prems"(3) ex by simp
    from "1.IH" [OF ex refl b(2) inv this] show ?thesis .
  qed
qed

lemma split_parts_concat: "concat (map content (split_parts code)) = code"
proof -
  obtain li ps where l: "split_loop code 0 [] = (li, ps)"
    by (cases "split_loop code 0 []")
  from split_loop_invariant [OF _ _ l]
  have "li \<le> length code" "concat (map content ps) = take li code"
    by simp_all
  with l show ?thesis by (simp add: split_parts_def)
qed

section \<open>Escaping of text parts\<close>

lemma escape_text_eq: "escape_text s = concat (map escape_char s)"
  by (induction s) (auto simp: escape_text_def replace_all_def escape_char_def)

lemma foldl_append_concat: "foldl (\<lambda>html part. html @ f part) acc ps = acc @ concat (map f ps)"
  by (induction ps arbitrary: acc) auto

lemma escape_no_markup:
  "CHR 0x0A \<notin> set s \<Longrightarrow> CHR ''<'' \<notin> set (escape_text s) \<and> CHR ''>'' \<notin> set (escape_text s)"
  by (induction s) (auto simp: escape_text_eq escape_char_def)

lemma processLatex_concat:
  "k \<noteq> KatexNull \<Longrightarrow> processLatex k code = concat (map (part_html k) (split_parts code))"
  by (cases k) (simp_all add: processLatex_def foldl_append_concat)

lemma part_html_text: "type_of p = Text \<Longrightarrow> part_html k p = escape_text (content p)"
  by (simp add: part_html_def)

section \<open>Where math parts begin and end\<close>

subsection \<open>Every math part is a match of the expression at its offset\<close>

lemma search_match: "search s = Some (i, n) \<Longrightarrow> match_at (drop i s) = Some n"
  by (induction s arbitrary: i) (auto split: option.splits)

lemma exec_match:
  assumes "mathRegex_exec code lastIndex = Some (index, m)"
  shows "match_at (drop index code) = Some (length m)"
proof -
  from assms obtain i n where s: "search (drop lastIndex code) = Some (i, n)"
    and idx: "index = lastIndex + i" and m: "m = take n (drop index code)"
    by (auto simp: mathRegex_exec_def split: if_splits)
  from search_match [OF s] have ma: "match_at (drop index code) = Some n"
    by (simp add: idx add.commute)
  from match_at_bounds [OF ma] m have "length m = n" by simp
  with ma show ?thesis by simp
qed

lemma matches_ok_append:
  "matches_ok s (ps @ qs) =
     (matches_ok s ps \<and> matches_ok (drop (length (concat (map content ps))) s) qs)"
  by (induction ps arbitrary: s) (auto simp: add.commute)

lemma split_loop_matches:
  "matches_ok code parts \<Longrightarrow> length (concat (map content parts)) = lastIndex \<Longrightarrow>
   lastIndex \<le> length code \<Longrightarrow>
   split_loop code lastIndex parts = (li, ps) \<Longrightarrow> matches_ok code ps"
proof (induction code lastIndex parts rule: split_loop.induct)
  case (1 code lastIndex parts)
  show ?case
  proof (cases "mathRegex_exec code lastIndex")
    case None
    with "1.prems" show ?thesis by simp
  next
    case (Some r)
    obtain index m where r: "r = (index, m)" by (cases r)
    note ex = Some [unfolded r]
    from exec_bounds [OF ex] have b: "lastIndex \<le> index" "index + length m \<le> length code"
      by simp_all
    let ?parts = "(if index > lastIndex
              then parts @ [MathPart Text (slice code lastIndex index)]
              else parts) @ [MathPart Math m]"
    have len_txt: "length (slice code lastIndex index) = index - lastIndex"
      using b by (simp add: slice_def)
    have ok: "matches_ok code ?parts"
      using "1.prems"(1,2) b(1) exec_match [OF ex] len_txt
      by (cases "index = lastIndex") (auto simp: matches_ok_append)
    have len: "length (concat (map content ?parts)) = index + length m"
      using "1.prems"(2) b(1) len_txt by (cases "index = lastIndex") auto
    have "split_loop code (index + length m) ?parts = (li, ps)"
      using "1.prems"(4) ex by simp
    from "1.IH" [OF ex refl ok len b(2) this] show ?thesis .
  qed
qed

lemma split_parts_matches: "matches_ok code (split_parts code)"
proof -
  obtain li ps where l: "split_loop code 0 [] = (li, ps)"
    by (cases "split_loop code 0 []")
  from split_loop_matches [OF _ _ _ l] have "matches_ok code ps" by simp
  with l show ?thesis by (simp add: split_parts_def matches_ok_append)
qed

lemma math_part_is_match:
  assumes "split_parts code = qs @ MathPart Math m # rs"
  shows "match_at (drop (length (concat (map content qs))) code) = Some (length m)"
    and "drop (length (concat (map content qs))) code = m @ concat (map content rs)"
proof -
  from split_parts_matches [of code] assms
  show "match_at (drop (length (concat (map content qs))) code) = Some (length m)"
    by (simp add: matches_ok_append)
  from split_parts_concat [of code] assms
  have "code = concat (map content qs) @ m @ concat (map content rs)" by simp
  then show "drop (length (concat (map content qs))) code = m @ concat (map content rs)"
    by (metis append_eq_conv_conj)
qed


subsection \<open>The shape of a match\<close>

lemma find_close_shape:
  "find_close cl t = Some j \<Longrightarrow> take (j + 2) t = take j t @ [CHR 0x5C, cl]"
  by (induction cl t arbitrary: j rule: find_close.induct) (auto split: if_splits)

lemma take_two_parts: "t = xs @ ys @ zs \<Longrightarrow> take (length xs + length ys) t = xs @ ys"
  by simp

lemma match_display_dollar_shape:
  assumes "match_display_dollar s = Some n"
  shows "\<exists>u. take n s = ''$$'' @ u @ ''$$'' \<and> CHR ''$'' \<notin> set u"
proof -
  let ?P = "\<lambda>c. c \<noteq> CHR ''$''"
  define u where "u t = takeWhile ?P t" for t
  from assms obtain t where s: "s = CHR ''$'' # CHR ''$'' # t"
    by (auto simp: match_display_dollar_def split: list.splits if_splits)
  from assms s obtain r where d: "dropWhile ?P t = CHR ''$'' # CHR ''$'' # r"
    and n: "n = 2 + length (u t) + 2"
    by (auto simp: match_display_dollar_def u_def split: list.splits if_splits)
  have "t = u t @ ''$$'' @ r"
    using takeWhile_dropWhile_id [of ?P t] d by (simp add: u_def)
  from take_two_parts [OF this] have "take (length (u t) + 2) t = u t @ ''$$''"
    by simp
  moreover have "CHR ''$'' \<notin> set (u t)"
    by (auto simp: u_def dest: set_takeWhileD)
  ultimately show ?thesis using s n by auto
qed

lemma match_bracket_shape:
  assumes "match_bracket opn cl s = Some n"
  shows "\<exists>u. take n s = [CHR 0x5C, opn] @ u @ [CHR 0x5C, cl]"
proof -
  from assms obtain t j where s: "s = CHR 0x5C # opn # t" and j: "find_close cl t = Some j"
    and n: "n = 2 + j + 2"
    by (auto simp: match_bracket_def split: list.splits if_splits)
  from find_close_shape [OF j] s n show ?thesis by auto
qed

lemma match_inline_dollar_shape:
  assumes "match_inline_dollar s = Some n"
  shows "\<exists>u. take n s = ''$'' @ u @ ''$'' \<and> u \<noteq> [] \<and> CHR ''$'' \<notin> set u \<and> CHR 0x0A \<notin> set u"
proof -
  let ?P = "\<lambda>c. c \<noteq> CHR ''$'' \<and> c \<noteq> CHR 0x0A"
  define u where "u t = takeWhile ?P t" for t
  from assms obtain t where s: "s = CHR ''$'' # t"
    by (auto simp: match_inline_dollar_def split: list.splits if_splits)
  from assms s obtain r where b: "u t \<noteq> []" and d: "drop (length (u t)) t = CHR ''$'' # r"
    and n: "n = 1 + length (u t) + 1"
    by (auto simp: match_inline_dollar_def Let_def u_def split: list.splits if_splits)
  have "t = take (length (u t)) t @ drop (length (u t)) t" by simp
  also have "take (length (u t)) t = u t"
    unfolding u_def by (metis takeWhile_eq_take)
  finally have "t = u t @ ''$'' @ r" using d by simp
  from take_two_parts [OF this] have "take (length (u t) + 1) t = u t @ ''$''"
    by simp
  moreover have "CHR ''$'' \<notin> set (u t)" "CHR 0x0A \<notin> set (u t)"
    by (auto simp: u_def dest: set_takeWhileD)
  ultimately show ?thesis using s n b by auto
qed


lemma match_at_shape:
  assumes "match_at s = Some n"
  shows "(\<exists>u. take n s = ''$$'' @ u @ ''$$'')
       \<or> (\<exists>u. take n s = [CHR 0x5C, CHR ''[''] @ u @ [CHR 0x5C, CHR '']''])
       \<or> (\<exists>u. take n s = [CHR 0x5C, CHR ''(''] @ u @ [CHR 0x5C, CHR '')''])
       \<or> (\<exists>u. take n s = ''$'' @ u @ ''$'' \<and> CHR 0x0A \<notin> set u)"
proof -
  from assms consider
      "match_display_dollar s = Some n"
    | "match_bracket (CHR ''['') (CHR '']'') s = Some n"
    | "match_bracket (CHR ''('') (CHR '')'') s = Some n"
    | "match_inline_dollar s = Some n"
    by (auto simp: match_at_def split: option.splits)
  then show ?thesis
  proof cases
    case 1
    from match_display_dollar_shape [OF this] show ?thesis by blast
  next
    case 2
    from match_bracket_shape [OF this] show ?thesis by blast
  next
    case 3
    from match_bracket_shape [OF this] show ?thesis by blast
  next
    case 4
    from match_inline_dollar_shape [OF this] show ?thesis by blast
  qed
qed

text \<open>No match lies inside a string that has no dollar sign and no closing bracket pair.\<close>

lemma no_match_without_closer:
  assumes d: "CHR ''$'' \<notin> set r"
    and b1: "\<not> sublist [CHR 0x5C, CHR '']''] r"
    and b2: "\<not> sublist [CHR 0x5C, CHR '')''] r"
    and t: "sublist t r"
  shows "match_at t = None"
proof (cases "match_at t")
  case None
  then show ?thesis .
next
  case (Some n)
  have m: "sublist (take n t) r"
    using t sublist_take sublist_order.order_trans by blast
  from match_at_shape [OF Some] show ?thesis
  proof (elim disjE exE conjE)
    fix u assume "take n t = ''$$'' @ u @ ''$$''"
    then have "CHR ''$'' \<in> set (take n t)" by simp
    with set_mono_sublist [OF m] d show ?thesis by blast
  next
    fix u assume "take n t = [CHR 0x5C, CHR ''[''] @ u @ [CHR 0x5C, CHR '']'']"
    then have "sublist [CHR 0x5C, CHR '']''] (take n t)"
      by (metis append.assoc sublist_append_leftI)
    with m b1 sublist_order.order_trans show ?thesis by blast
  next
    fix u assume "take n t = [CHR 0x5C, CHR ''(''] @ u @ [CHR 0x5C, CHR '')'']"
    then have "sublist [CHR 0x5C, CHR '')''] (take n t)"
      by (metis append.assoc sublist_append_leftI)
    with m b2 sublist_order.order_trans show ?thesis by blast
  next
    fix u assume "take n t = ''$'' @ u @ ''$''"
    then have "CHR ''$'' \<in> set (take n t)" by simp
    with set_mono_sublist [OF m] d show ?thesis by blast
  qed
qed


text \<open>A match that starts before a dollar sign which nothing can close, and which no earlier
  dollar sign of its line can reach, ends before that dollar sign.\<close>

lemma match_ends_before:
  assumes d: "CHR ''$'' \<notin> set r"
    and b1: "\<not> sublist [CHR 0x5C, CHR '']''] r"
    and b2: "\<not> sublist [CHR 0x5C, CHR '')''] r"
    and c: "\<And>u v. q = u @ CHR ''$'' # v \<Longrightarrow> CHR 0x0A \<in> set v"
    and ma: "match_at (q @ CHR ''$'' # r) = Some n"
  shows "n \<le> length q"
proof (rule ccontr)
  assume "\<not> n \<le> length q"
  then have n: "length q < n" by simp
  define r1 where "r1 = take (n - Suc (length q)) r"
  have m: "take n (q @ CHR ''$'' # r) = q @ CHR ''$'' # r1"
    using n by (simp add: r1_def take_Cons')
  have r1: "sublist r1 r" by (simp add: r1_def)
  have no_dollar: "CHR ''$'' \<notin> set r1"
    using d set_mono_sublist [OF r1] by blast
  have closer: False
    if e: "q @ CHR ''$'' # r1 = w @ [CHR 0x5C, cl]" and cl: "cl \<noteq> CHR ''$''"
      and b: "\<not> sublist [CHR 0x5C, cl] r" for w cl
  proof -
    from arg_cong [OF e, of rev]
    have e': "rev r1 @ CHR ''$'' # rev q = cl # CHR 0x5C # rev w" by simp
    show False
    proof (cases "rev r1")
      case Nil
      with e' cl show False by simp
    next
      case (Cons x xs)
      note outer = Cons
      show False
      proof (cases xs)
        case Nil
        with e' outer show False by simp
      next
        case (Cons y ys)
        with e' outer have "rev r1 = cl # CHR 0x5C # ys" by simp
        then have "r1 = rev ys @ [CHR 0x5C, cl]"
          by (metis rev_rev_ident rev.simps(2) append.assoc append_Cons append_Nil)
        then have "sublist [CHR 0x5C, cl] r1" by simp
        with r1 b sublist_order.order_trans show False by blast
      qed
    qed
  qed
  have dollar_end: "q = w @ u"
    if e: "q @ CHR ''$'' # r1 = w @ u @ ''$''" for w u
  proof -
    from arg_cong [OF e, of rev]
    have e': "rev r1 @ CHR ''$'' # rev q = CHR ''$'' # rev u @ rev w" by simp
    show ?thesis
    proof (cases "rev r1")
      case Nil
      with e' have "rev q = rev (w @ u)" by simp
      then show ?thesis by (simp only: rev_is_rev_conv)
    next
      case (Cons x xs)
      with e' have "x = CHR ''$''" by simp
      with Cons have "CHR ''$'' \<in> set (rev r1)" by simp
      with no_dollar show ?thesis by simp
    qed
  qed
  from match_at_shape [OF ma] show False
    unfolding m
  proof (elim disjE exE conjE)
    fix u assume "q @ CHR ''$'' # r1 = ''$$'' @ u @ ''$$''"
    then have "q @ CHR ''$'' # r1 = (''$$'' @ u @ ''$'') @ [] @ ''$''" by simp
    from dollar_end [OF this] have "q = (''$$'' @ u) @ CHR ''$'' # []" by simp
    from c [OF this] show False by simp
  next
    fix u assume "q @ CHR ''$'' # r1 = [CHR 0x5C, CHR ''[''] @ u @ [CHR 0x5C, CHR '']'']"
    then have "q @ CHR ''$'' # r1 = ([CHR 0x5C, CHR ''[''] @ u) @ [CHR 0x5C, CHR '']'']" by simp
    from closer [OF this _ b1] show False by simp
  next
    fix u assume "q @ CHR ''$'' # r1 = [CHR 0x5C, CHR ''(''] @ u @ [CHR 0x5C, CHR '')'']"
    then have "q @ CHR ''$'' # r1 = ([CHR 0x5C, CHR ''(''] @ u) @ [CHR 0x5C, CHR '')'']" by simp
    from closer [OF this _ b2] show False by simp
  next
    fix u assume "q @ CHR ''$'' # r1 = ''$'' @ u @ ''$''" and nl: "CHR 0x0A \<notin> set u"
    then have "q @ CHR ''$'' # r1 = [] @ (''$'' @ u) @ ''$''" by simp
    from dollar_end [OF this] have "q = [] @ CHR ''$'' # u" by simp
    from c [OF this] nl show False by simp
  qed
qed


lemma dollar_on_last_line:
  assumes "CHR ''$'' \<notin> set (takeWhile (\<lambda>c. c \<noteq> CHR 0x0A) (rev p))"
    and "p = u @ CHR ''$'' # v"
  shows "CHR 0x0A \<in> set v"
proof (rule ccontr)
  assume nl: "CHR 0x0A \<notin> set v"
  have "takeWhile (\<lambda>c. c \<noteq> CHR 0x0A) (rev v @ CHR ''$'' # rev u)
      = rev v @ takeWhile (\<lambda>c. c \<noteq> CHR 0x0A) (CHR ''$'' # rev u)"
    by (rule takeWhile_append2) (use nl in auto)
  moreover have "rev p = rev v @ CHR ''$'' # rev u" using assms(2) by simp
  ultimately show False using assms(1) by simp
qed

lemma match_end_bound:
  assumes code: "code = p @ CHR ''$'' # r"
    and d: "CHR ''$'' \<notin> set r"
    and b1: "\<not> sublist [CHR 0x5C, CHR '']''] r"
    and b2: "\<not> sublist [CHR 0x5C, CHR '')''] r"
    and c: "CHR ''$'' \<notin> set (takeWhile (\<lambda>c. c \<noteq> CHR 0x0A) (rev p))"
    and ma: "match_at (drop k code) = Some n"
  shows "k + n \<le> length p"
proof (cases "k \<le> length p")
  case True
  have dr: "drop k code = drop k p @ CHR ''$'' # r"
    using True code by simp
  have "n \<le> length (drop k p)"
  proof (rule match_ends_before [OF d b1 b2 _ ma [unfolded dr]])
    fix u v assume "drop k p = u @ CHR ''$'' # v"
    then have "p = (take k p @ u) @ CHR ''$'' # v"
      by (metis append.assoc append_take_drop_id)
    from dollar_on_last_line [OF c this] show "CHR 0x0A \<in> set v" .
  qed
  with True show ?thesis by simp
next
  case False
  then have "drop k code = drop (k - Suc (length p)) r"
    using code by (simp add: drop_Cons')
  then have "sublist (drop k code) r" by simp
  from no_match_without_closer [OF d b1 b2 this] ma show ?thesis by simp
qed

lemma split_loop_before:
  "code = p @ CHR ''$'' # r \<Longrightarrow> CHR ''$'' \<notin> set r \<Longrightarrow>
   \<not> sublist [CHR 0x5C, CHR '']''] r \<Longrightarrow> \<not> sublist [CHR 0x5C, CHR '')''] r \<Longrightarrow>
   CHR ''$'' \<notin> set (takeWhile (\<lambda>c. c \<noteq> CHR 0x0A) (rev p)) \<Longrightarrow>
   lastIndex \<le> length p \<Longrightarrow> split_loop code lastIndex parts = (li, ps) \<Longrightarrow> li \<le> length p"
proof (induction code lastIndex parts rule: split_loop.induct)
  case (1 code lastIndex parts)
  show ?case
  proof (cases "mathRegex_exec code lastIndex")
    case None
    with "1.prems" show ?thesis by simp
  next
    case (Some x)
    obtain index m where x: "x = (index, m)" by (cases x)
    note ex = Some [unfolded x]
    let ?parts = "(if index > lastIndex
              then parts @ [MathPart Text (slice code lastIndex index)]
              else parts) @ [MathPart Math m]"
    from match_end_bound [OF "1.prems"(1-5) exec_match [OF ex]]
    have b: "index + length m \<le> length p" .
    have "split_loop code (index + length m) ?parts = (li, ps)"
      using "1.prems"(7) ex by simp
    from "1.IH" [OF ex refl "1.prems"(1-5) b this] show ?thesis .
  qed
qed

lemma unclosed_dollar_tail:
  assumes code: "code = p @ CHR ''$'' # r"
    and d: "CHR ''$'' \<notin> set r"
    and b1: "\<not> sublist [CHR 0x5C, CHR '']''] r"
    and b2: "\<not> sublist [CHR 0x5C, CHR '')''] r"
    and c: "CHR ''$'' \<notin> set (takeWhile (\<lambda>c. c \<noteq> CHR 0x0A) (rev p))"
  shows "split_parts code \<noteq> [] \<and> type_of (last (split_parts code)) = Text
     \<and> suffix (CHR ''$'' # r) (content (last (split_parts code)))"
proof -
  obtain li ps where l: "split_loop code 0 [] = (li, ps)"
    by (cases "split_loop code 0 []")
  from split_loop_before [OF code d b1 b2 c _ l] have li: "li \<le> length p" by simp
  then have sp: "split_parts code = ps @ [MathPart Text (drop li code)]"
    using l code by (simp add: split_parts_def)
  have "drop li code = drop li p @ CHR ''$'' # r"
    using li code by simp
  then have "suffix (CHR ''$'' # r) (drop li code)"
    by (simp add: suffix_def)
  with sp show ?thesis by simp
qed

text \<open>No alternative matches at a dollar sign whose line has no further dollar sign.\<close>

lemma no_match_at_unclosed_dollar:
  assumes "CHR ''$'' \<notin> set (takeWhile (\<lambda>c. c \<noteq> CHR 0x0A) r)"
  shows "match_at (CHR ''$'' # r) = None"
proof (cases "match_at (CHR ''$'' # r)")
  case None
  then show ?thesis .
next
  case (Some n)
  from assms have hd: "r = [] \<or> hd r \<noteq> CHR ''$''"
    by (cases r) (auto split: if_splits)
  from Some consider
      "match_display_dollar (CHR ''$'' # r) = Some n"
    | "match_bracket (CHR ''['') (CHR '']'') (CHR ''$'' # r) = Some n"
    | "match_bracket (CHR ''('') (CHR '')'') (CHR ''$'' # r) = Some n"
    | "match_inline_dollar (CHR ''$'' # r) = Some n"
    by (auto simp: match_at_def split: option.splits)
  then show ?thesis
  proof cases
    case 1
    with hd show ?thesis
      by (auto simp: match_display_dollar_def split: list.splits if_splits)
  next
    case 2
    then show ?thesis by (simp add: match_bracket_def split: list.splits)
  next
    case 3
    then show ?thesis by (simp add: match_bracket_def split: list.splits)
  next
    case 4
    from match_inline_dollar_shape [OF 4] obtain u
      where u: "take n (CHR ''$'' # r) = ''$'' @ u @ ''$''" and nl: "CHR 0x0A \<notin> set u"
      by blast
    from match_inline_dollar_bounds [OF 4] have "0 < n" by simp
    with u have "take (n - 1) r = u @ ''$''" by (simp add: take_Cons')
    then have "r = (u @ ''$'') @ drop (n - 1) r"
      by (metis append_take_drop_id)
    then have r: "r = u @ CHR ''$'' # drop (n - 1) r" by simp
    have "takeWhile (\<lambda>c. c \<noteq> CHR 0x0A) (u @ CHR ''$'' # drop (n - 1) r)
        = u @ takeWhile (\<lambda>c. c \<noteq> CHR 0x0A) (CHR ''$'' # drop (n - 1) r)"
      by (rule takeWhile_append2) (use nl in auto)
    then have "CHR ''$'' \<in> set (takeWhile (\<lambda>c. c \<noteq> CHR 0x0A) (u @ CHR ''$'' # drop (n - 1) r))"
      by simp
    with r assms show ?thesis by metis
  qed
qed


lemma no_math_at_unclosed_dollar:
  assumes code: "code = p @ CHR ''$'' # r"
    and line: "CHR ''$'' \<notin> set (takeWhile (\<lambda>c. c \<noteq> CHR 0x0A) r)"
  shows "\<not> (\<exists>qs m rs. split_parts code = qs @ MathPart Math m # rs \<and> concat (map content qs) = p)"
proof
  assume "\<exists>qs m rs. split_parts code = qs @ MathPart Math m # rs \<and> concat (map content qs) = p"
  then obtain qs m rs where sp: "split_parts code = qs @ MathPart Math m # rs"
    and p: "concat (map content qs) = p" by blast
  from math_part_is_match(1) [OF sp] p code
  have "match_at (CHR ''$'' # r) = Some (length m)" by simp
  with no_match_at_unclosed_dollar [OF line] show False by simp
qed

lemma inline_math_one_line:
  assumes part: "part \<in> set (split_parts code)" and math: "type_of part = Math"
    and one: "prefix ''$'' (content part)" and two: "\<not> prefix ''$$'' (content part)"
  shows "CHR 0x0A \<notin> set (content part)"
proof -
  obtain m where pm: "part = MathPart Math m" using math by (cases part) simp
  from part obtain qs rs where sp: "split_parts code = qs @ MathPart Math m # rs"
    unfolding pm by (meson split_list)
  let ?s = "drop (length (concat (map content qs))) code"
  from math_part_is_match [OF sp]
  have ma: "match_at ?s = Some (length m)" and s: "?s = m @ concat (map content rs)"
    by simp_all
  from match_at_bounds [OF ma] have "3 \<le> length m" by simp
  with one two pm obtain c t where m: "m = CHR ''$'' # c # t" and c: "c \<noteq> CHR ''$''"
    by (cases m; cases "tl m") auto
  have "match_display_dollar ?s = None"
    unfolding s using m c by (simp add: match_display_dollar_def)
  moreover have "match_bracket opn cl ?s = None" for opn cl
    unfolding s using m by (simp add: match_bracket_def split: list.splits)
  ultimately have "match_inline_dollar ?s = Some (length m)"
    using ma by (simp add: match_at_def)
  from match_inline_dollar_shape [OF this] s pm show ?thesis by auto
qed

section \<open>Responses of the compile endpoint\<close>

lemma POST_empty:
  assumes "content' = None \<or> content' = Some []"
  shows "POST pdflatex tempDir now (Body content') sv
           = (Some (400, [(''error'', ''No content provided'')]), sv)"
  using assms by (auto simp: POST_def POST_try_def)

lemma POST_try_nonempty:
  assumes "content' \<noteq> []" and "writable sv"
    and "run_compiler pdflatex tempDir now content' sv = (Closed res, sv2)"
  shows "POST_try pdflatex tempDir now (Body (Some content')) sv =
     (if exit_code res \<noteq> Some 0
      then (Throws (Error (''LaTeX compilation failed: ''
              @ (if stderr_text res \<noteq> [] then stderr_text res else stdout_text res))), sv2)
      else
        (case readFile (outputFile_of tempDir now) sv2 of
           Inl e \<Rightarrow> (Throws e, sv2)
         | Inr pdf \<Rightarrow>
             (Returns (200, [(''pdf'', toString_base64 pdf)]),
              unlink (replace_ext ''.pdf'' ''.aux'' (outputFile_of tempDir now))
                (unlink (replace_ext ''.pdf'' ''.log'' (outputFile_of tempDir now))
                  (unlink (outputFile_of tempDir now)
                    (unlink (tempFile_of tempDir now) sv2))))))"
  using assms
  by (simp add: POST_try_def writeFile_def run_compiler_def Let_def)

lemma POST_try_launch_failed:
  assumes "content' \<noteq> []" and "writable sv"
    and "run_compiler pdflatex tempDir now content' sv = (LaunchFailed, sv2)"
  shows "POST_try pdflatex tempDir now (Body (Some content')) sv = (Never, sv2)"
  using assms
  by (simp add: POST_try_def writeFile_def run_compiler_def Let_def)

lemma POST_success:
  assumes "content' \<noteq> []" and "writable sv"
    and "fst (run_compiler pdflatex tempDir now content' sv) = Closed res"
    and "exit_code res = Some 0"
    and "files (snd (run_compiler pdflatex tempDir now content' sv)) (outputFile_of tempDir now)
           = Some pdf"
  shows "fst (POST pdflatex tempDir now (Body (Some content')) sv)
           = Some (200, [(''pdf'', toString_base64 pdf)])"
proof -
  obtain sv2 where r: "run_compiler pdflatex tempDir now content' sv = (Closed res, sv2)"
    using assms(3) by (cases "run_compiler pdflatex tempDir now content' sv") simp
  with assms(5) have "files sv2 (outputFile_of tempDir now) = Some pdf"
    by simp
  with assms(4) show ?thesis
    by (simp add: POST_def POST_try_nonempty [OF assms(1,2) r] readFile_def)
qed

lemma POST_compiler_failure:
  assumes "content' \<noteq> []" and "writable sv"
    and "fst (run_compiler pdflatex tempDir now content' sv) = Closed res"
    and "exit_code res \<noteq> Some 0"
  shows "fst (POST pdflatex tempDir now (Body (Some content')) sv)
           = Some (500, [(''error'', ''LaTeX compilation failed: ''
                @ (if stderr_text res \<noteq> [] then stderr_text res else stdout_text res))])"
proof -
  obtain sv2 where r: "run_compiler pdflatex tempDir now content' sv = (Closed res, sv2)"
    using assms(3) by (cases "run_compiler pdflatex tempDir now content' sv") simp
  from assms(4) show ?thesis
    by (simp add: POST_def POST_try_nonempty [OF assms(1,2) r])
qed

lemma POST_output_missing:
  assumes "content' \<noteq> []" and "writable sv"
    and "fst (run_compiler pdflatex tempDir now content' sv) = Closed res"
    and "exit_code res = Some 0"
    and "files (snd (run_compiler pdflatex tempDir now content' sv)) (outputFile_of tempDir now)
           = None"
  shows "fst (POST pdflatex tempDir now (Body (Some content')) sv)
           = Some (500, [(''error'', ''ENOENT: no such file or directory, open ''
                @ quoted (outputFile_of tempDir now))])"
proof -
  obtain sv2 where r: "run_compiler pdflatex tempDir now content' sv = (Closed res, sv2)"
    using assms(3) by (cases "run_compiler pdflatex tempDir now content' sv") simp
  with assms(5) have "files sv2 (outputFile_of tempDir now) = None"
    by simp
  with assms(4) show ?thesis
    by (simp add: POST_def POST_try_nonempty [OF assms(1,2) r] readFile_def)
qed

lemma POST_try_shape:
  assumes "POST_try pdflatex tempDir now req sv = (Returns (status, b), sv')"
  shows "(status = 200 \<and> (\<exists>pdf. b = [(''pdf'', pdf)]))
       \<or> (status = 400 \<and> (\<exists>message. b = [(''error'', message)]))"
proof (cases req)
  case (BadBody e)
  with assms show ?thesis by (simp add: POST_try_def)
next
  case (Body c)
  show ?thesis
  proof (cases "c = None \<or> c = Some []")
    case True
    with assms Body show ?thesis by (auto simp: POST_try_def)
  next
    case False
    then obtain content' where c: "c = Some content'" "content' \<noteq> []" by auto
    show ?thesis
    proof (cases "writable sv")
      case False
      with assms Body c show ?thesis by (simp add: POST_try_def writeFile_def Let_def)
    next
      case True
      obtain ch sv2 where r: "run_compiler pdflatex tempDir now content' sv = (ch, sv2)"
        by (cases "run_compiler pdflatex tempDir now content' sv")
      show ?thesis
      proof (cases ch)
        case LaunchFailed
        with assms show ?thesis
          unfolding Body c POST_try_launch_failed [OF c(2) True r [unfolded LaunchFailed]]
          by simp
      next
        case (Closed res)
        from assms show ?thesis
          unfolding Body c POST_try_nonempty [OF c(2) True r [unfolded Closed]]
          by (auto split: if_splits sum.splits)
      qed
    qed
  qed
qed

lemma POST_shape:
  assumes "fst (POST pdflatex tempDir now req sv) = Some (status, b)"
  shows "(status = 200 \<and> (\<exists>pdf. b = [(''pdf'', pdf)]))
       \<or> ((status = 400 \<or> status = 500) \<and> (\<exists>message. b = [(''error'', message)]))"
proof -
  obtain r sv' where p: "POST_try pdflatex tempDir now req sv = (r, sv')"
    by (cases "POST_try pdflatex tempDir now req sv")
  show ?thesis
  proof (cases r)
    case (Returns resp)
    with p assms have "resp = (status, b)" by (simp add: POST_def)
    with p Returns POST_try_shape [of pdflatex tempDir now req sv status b sv'] show ?thesis
      by auto
  next
    case (Throws e)
    with p assms show ?thesis by (auto simp: POST_def)
  next
    case Never
    with p assms show ?thesis by (simp add: POST_def)
  qed
qed

subsection \<open>The example runs, evaluated\<close>

lemma tempFile_example: "tempFile_of ''/tmp'' 1700000000123 = ''/tmp/latex-1700000000123.tex''"
  by (simp add: tempFile_of_def join_def decimal.simps)

lemma outputFile_example: "outputFile_of ''/tmp'' 1700000000123 = ''/tmp/latex-1700000000123.pdf''"
  by (simp add: outputFile_of_def tempFile_example replace_ext_def suffix_to_prefix)

lemma good_nonempty: "good_source \<noteq> []" and bad_nonempty: "bad_source \<noteq> []"
  by (simp_all add: good_source_def bad_source_def)

lemma writable_empty_server: "writable empty_server"
  by (simp add: empty_server_def)

lemma run_succeeds:
  "fst (run_compiler pdflatex_succeeds ''/tmp'' 1700000000123 good_source empty_server)
     = pdflatex_succeeds (latex_args ''/tmp'' 1700000000123)
         ((files empty_server)(tempFile_of ''/tmp'' 1700000000123 \<mapsto> good_source))"
  "files (snd (run_compiler pdflatex_succeeds ''/tmp'' 1700000000123 good_source empty_server))
     (outputFile_of ''/tmp'' 1700000000123) = Some ''%PDF-1.5''"
  by (simp_all add: run_compiler_def spawn_def pdflatex_succeeds_def outputFile_example)

lemma run_fails:
  "fst (run_compiler pdflatex_fails ''/tmp'' 1700000000123 bad_source empty_server)
     = pdflatex_fails (latex_args ''/tmp'' 1700000000123)
         ((files empty_server)(tempFile_of ''/tmp'' 1700000000123 \<mapsto> bad_source))"
  by (simp add: run_compiler_def spawn_def pdflatex_fails_def)

lemma run_no_output:
  "fst (run_compiler pdflatex_no_output ''/tmp'' 1700000000123 good_source empty_server)
     = pdflatex_no_output (latex_args ''/tmp'' 1700000000123)
         ((files empty_server)(tempFile_of ''/tmp'' 1700000000123 \<mapsto> good_source))"
  "files (snd (run_compiler pdflatex_no_output ''/tmp'' 1700000000123 good_source empty_server))
     (outputFile_of ''/tmp'' 1700000000123) = None"
  by (simp_all add: run_compiler_def spawn_def pdflatex_no_output_def outputFile_example
      tempFile_example empty_server_def)

lemma run_missing:
  "run_compiler pdflatex_missing ''/tmp'' 1700000000123 good_source empty_server
     = (LaunchFailed,
        \<lparr>files = Map.empty(''/tmp/latex-1700000000123.tex'' \<mapsto> good_source),
         writable = True,
         spawned = [''pdflatex'' # latex_args ''/tmp'' 1700000000123]\<rparr>)"
  by (simp add: run_compiler_def spawn_def pdflatex_missing_def empty_server_def
      tempFile_example)

lemma base64_example: "toString_base64 ''%PDF-1.5'' = ''JVBERi0xLjU=''"
  by (simp add: toString_base64_def base64_alphabet_def)

text \<open>On the path where the compiler succeeds, the four files are gone afterwards.\<close>

lemma POST_success_removes_files:
  assumes "content' \<noteq> []" and "writable sv"
    and "fst (run_compiler pdflatex tempDir now content' sv) = Closed res"
    and "exit_code res = Some 0"
    and "files (snd (run_compiler pdflatex tempDir now content' sv)) (outputFile_of tempDir now)
           = Some pdf"
    and "p \<in> {tempFile_of tempDir now, outputFile_of tempDir now,
               replace_ext ''.pdf'' ''.log'' (outputFile_of tempDir now),
               replace_ext ''.pdf'' ''.aux'' (outputFile_of tempDir now)}"
  shows "files (snd (POST pdflatex tempDir now (Body (Some content')) sv)) p = None"
proof -
  obtain sv2 where r: "run_compiler pdflatex tempDir now content' sv = (Closed res, sv2)"
    using assms(3) by (cases "run_compiler pdflatex tempDir now content' sv") simp
  with assms(5) have "files sv2 (outputFile_of tempDir now) = Some pdf"
    by simp
  with assms(4,6) show ?thesis
    by (auto simp: POST_def POST_try_nonempty [OF assms(1,2) r] readFile_def unlink_def)
qed

section \<open>The store and the editors\<close>

lemma getDocuments_total: "\<exists>docs. getDocuments JSON_parse ls = Inr docs"
  by (simp add: getDocuments_def split: sum.splits)

lemma getDocuments_absent:
  "safeLocalStorage_getItem ls DOCUMENTS_KEY = None \<Longrightarrow> getDocuments JSON_parse ls = Inr []"
  by (simp add: getDocuments_def getDocuments_try_def)

lemma getDocuments_invalid:
  "safeLocalStorage_getItem ls DOCUMENTS_KEY = Some docsJson \<Longrightarrow> JSON_parse docsJson = None \<Longrightarrow>
     getDocuments JSON_parse ls = Inr []"
  by (simp add: getDocuments_def getDocuments_try_def)

lemma getDocuments_not_array:
  "safeLocalStorage_getItem ls DOCUMENTS_KEY = Some docsJson \<Longrightarrow> JSON_parse docsJson = Some JOther \<Longrightarrow>
     getDocuments JSON_parse ls = Inr []"
  by (simp add: getDocuments_def getDocuments_try_def)

lemma getDocuments_array:
  "safeLocalStorage_getItem ls DOCUMENTS_KEY = Some docsJson \<Longrightarrow> docsJson \<noteq> [] \<Longrightarrow>
   JSON_parse docsJson = Some (JArray docs) \<Longrightarrow>
     getDocuments JSON_parse ls = Inr docs"
  by (simp add: getDocuments_def getDocuments_try_def)

lemma shown_after_success:
  "shown_pdf (compileLatex_settle (Decoded pdf) s) = Some pdf"
  by (simp add: compileLatex_settle_def createObjectURL_def revokeObjectURL_def shown_pdf_def
      Let_def split: option.splits)

lemma shown_after_failure:
  "failure_message outcome = Some message \<Longrightarrow> shown_pdf (compileLatex_settle outcome s) = None"
  by (cases outcome rule: failure_message.cases)
     (simp_all add: compileLatex_settle_def compile_failed_def shown_pdf_def)

lemma settle_failure:
  assumes "failure_message outcome = Some message"
  shows "compileLatex_settle outcome s = compile_failed message s"
  using assms
  by (cases outcome rule: failure_message.cases) (auto simp: compileLatex_settle_def)

lemma doc_shown_after_success:
  "shown_pdf (doc_compile_settle (Decoded pdf) s) = Some pdf"
  by (simp add: doc_compile_settle_def createObjectURL_def revokeObjectURL_def shown_pdf_def
      Let_def split: option.splits)

lemma doc_settle_failure:
  assumes "failure_message outcome = Some message"
  shows "doc_compile_settle outcome s
     = s\<lparr>error := Some ''Failed to compile LaTeX. Please check your syntax.'', isCompiling := False\<rparr>"
  using assms
  by (cases outcome rule: failure_message.cases) (auto simp: doc_compile_settle_def)

lemma doc_shown_after_failure:
  "failure_message outcome = Some message \<Longrightarrow>
     shown_pdf (doc_compile_settle outcome d) = shown_pdf d"
  by (simp add: doc_settle_failure shown_pdf_def cong: option.case_cong)

lemma editor_run_snoc: "editor_run s (events @ [e]) = editor_step (editor_run s events) e"
  by (simp add: editor_run_def)


lemma docToSave_flags [simp]:
  "docToSave (s\<lparr>isCompiling := a, error := b, compileTimeout := c\<rparr>) = docToSave s"
  by (simp add: docToSave_def)

lemma doc_compileLatex_save_fails:
  assumes "editor_content s \<noteq> []"
    and "saveDocument JSON_parse JSON_stringify now millis (storage s) (docToSave s) = Inl e"
  shows "doc_compileLatex JSON_parse JSON_stringify now millis s
     = s\<lparr>isCompiling := False, error := Some ''Failed to save document'',
         compileTimeout := None, isSaving := False\<rparr>"
  using assms by (simp add: doc_compileLatex_def saveCurrentDocument_def)

lemma doc_compileLatex_save_ok:
  assumes "editor_content s \<noteq> []"
    and "saveDocument JSON_parse JSON_stringify now millis (storage s) (docToSave s)
           = Inr (savedDoc, ls)"
  shows "doc_compileLatex JSON_parse JSON_stringify now millis s
     = s\<lparr>isCompiling := True, error := None, compileTimeout := Some (doc_content savedDoc),
         isSaving := False, storage := ls, document := Some savedDoc, isNew := False\<rparr>"
  using assms by (simp add: doc_compileLatex_def saveCurrentDocument_def)

lemma save_orphaned:
  "saveDocument JSON_parse JSON_stringify now millis (storage orphaned_editor)
     (docToSave orphaned_editor) = Inl (Error ''Document not found'')"
  by (simp add: saveDocument_def getDocuments_def getDocuments_try_def
      safeLocalStorage_getItem_def orphaned_editor_def docToSave_def)

lemma save_new:
  "\<exists>savedDoc ls. saveDocument JSON_parse JSON_stringify now millis (storage new_doc_editor)
     (docToSave new_doc_editor) = Inr (savedDoc, ls) \<and> doc_content savedDoc = good_source"
  by (simp add: saveDocument_def getDocuments_def getDocuments_try_def
      safeLocalStorage_getItem_def new_doc_editor_def docToSave_def Let_def)

text \<open>
  Claim C2. For every input string, the contents of the parts produced by the text/math
  split, concatenated in output order, are exactly the input: no code unit is dropped,
  duplicated or moved.
\<close>

theorem C2_split_lossless: "concat (map content (split_parts code)) = code"
  by (rule split_parts_concat)

theorem C2_split_lossless_witness:
  "split_parts ''a $x^2$ b'' =
     [MathPart Text ''a '', MathPart Math ''$x^2$'', MathPart Text '' b'']
   \<and> concat (map content (split_parts ''a $x^2$ b'')) = ''a $x^2$ b''"
proof -
  have "split_parts ''a $x^2$ b'' =
     [MathPart Text ''a '', MathPart Math ''$x^2$'', MathPart Text '' b'']"
    by code_simp
  with C2_split_lossless [of "''a $x^2$ b''"] show ?thesis by simp
qed

text \<open>
  Claim C10. For every input, each part that the split classifies as text is HTML-escaped
  before it is appended to the preview: every \<open>&\<close>, \<open><\<close> and \<open>>\<close> of the part becomes its
  entity and every line feed a \<open><br>\<close> tag, so that the only angle brackets a text part
  contributes are those of the \<open><br>\<close> tags written by the escaping itself.
\<close>

theorem C10_text_parts_escaped:
  assumes "k \<noteq> KatexNull"
  shows "processLatex k code = concat (map (part_html k) (split_parts code))
    \<and> (\<forall>p \<in> set (split_parts code). type_of p = Text \<longrightarrow>
          part_html k p = concat (map escape_char (content p))
          \<and> (CHR 0x0A \<notin> set (content p) \<longrightarrow>
                CHR ''<'' \<notin> set (part_html k p) \<and> CHR ''>'' \<notin> set (part_html k p)))"
  using assms
  by (simp add: processLatex_concat part_html_text escape_text_eq [symmetric] escape_no_markup)

theorem C10_text_parts_escaped_witness:
  "KatexOther \<noteq> KatexNull
   \<and> MathPart Text ''a<b & '' \<in> set (split_parts ''a<b & $x$'')
   \<and> type_of (MathPart Text ''a<b & '') = Text
   \<and> part_html KatexOther (MathPart Text ''a<b & '') = ''a&lt;b &amp; ''
   \<and> processLatex KatexOther ''a<b & $x$''
       = ''a&lt;b &amp; '' @ part_html KatexOther (MathPart Math ''$x$'')"
proof -
  have k: "KatexOther \<noteq> KatexNull" by simp
  have sp: "split_parts ''a<b & $x$'' = [MathPart Text ''a<b & '', MathPart Math ''$x$'']"
    by code_simp
  have e: "concat (map escape_char ''a<b & '') = ''a&lt;b &amp; ''"
    by (simp add: escape_char_def)
  from C10_text_parts_escaped [OF k, of "''a<b & $x$''"] sp e show ?thesis
    by simp
qed

text \<open>
  Claim C8, as the code has it. Take a dollar sign of the input, at the end of \<open>p\<close>, that has
  no further dollar sign before the next line feed or the end of the input. Then no
  character is dropped; no math part begins at that dollar sign; every math part that opens
  with a single dollar sign lies on one line; and the rest of the input from that dollar
  sign on is plain text up to the next pair of delimiters that matches: when no dollar
  sign, no \<open>\]\<close> and no \<open>\)\<close> follows, and no dollar sign precedes it on its line, that
  rest is the tail of the last part, which is a text part.
\<close>

theorem C8_unclosed_dollar:
  assumes "code = p @ CHR ''$'' # r"
    and "CHR ''$'' \<notin> set (takeWhile (\<lambda>c. c \<noteq> CHR 0x0A) r)"
  shows "concat (map content (split_parts code)) = code
    \<and> \<not> (\<exists>qs m rs. split_parts code = qs @ MathPart Math m # rs
                     \<and> concat (map content qs) = p)
    \<and> (\<forall>part \<in> set (split_parts code).
          type_of part = Math \<and> prefix ''$'' (content part) \<and> \<not> prefix ''$$'' (content part)
            \<longrightarrow> CHR 0x0A \<notin> set (content part))
    \<and> (CHR ''$'' \<notin> set r \<and> \<not> sublist [CHR 0x5C, CHR '']''] r
          \<and> \<not> sublist [CHR 0x5C, CHR '')''] r
          \<and> CHR ''$'' \<notin> set (takeWhile (\<lambda>c. c \<noteq> CHR 0x0A) (rev p))
        \<longrightarrow> split_parts code \<noteq> []
            \<and> type_of (last (split_parts code)) = Text
            \<and> suffix (CHR ''$'' # r) (content (last (split_parts code))))"
proof (intro conjI ballI impI)
  show "concat (map content (split_parts code)) = code"
    by (rule split_parts_concat)
  show "\<not> (\<exists>qs m rs. split_parts code = qs @ MathPart Math m # rs
                     \<and> concat (map content qs) = p)"
    by (rule no_math_at_unclosed_dollar [OF assms])
next
  fix part
  assume "part \<in> set (split_parts code)"
    and "type_of part = Math \<and> prefix ''$'' (content part) \<and> \<not> prefix ''$$'' (content part)"
  then show "CHR 0x0A \<notin> set (content part)"
    using inline_math_one_line by blast
next
  assume h: "CHR ''$'' \<notin> set r \<and> \<not> sublist [CHR 0x5C, CHR '']''] r
          \<and> \<not> sublist [CHR 0x5C, CHR '')''] r
          \<and> CHR ''$'' \<notin> set (takeWhile (\<lambda>c. c \<noteq> CHR 0x0A) (rev p))"
  from unclosed_dollar_tail [OF assms(1)] h
  show "split_parts code \<noteq> []"
    and "type_of (last (split_parts code)) = Text"
    and "suffix (CHR ''$'' # r) (content (last (split_parts code)))"
    by blast+
qed

text \<open>
  The input is \<open>$x$\<close>, a line feed, then \<open>b $y\<close>: the last dollar sign is never closed, and
  it and the \<open>y\<close> after it end the final text part.
\<close>

theorem C8_unclosed_dollar_witness:
  "''$x$'' @ CHR 0x0A # ''b $y'' = (''$x$'' @ CHR 0x0A # ''b '') @ CHR ''$'' # ''y''
   \<and> CHR ''$'' \<notin> set (takeWhile (\<lambda>c. c \<noteq> CHR 0x0A) ''y'')
   \<and> CHR ''$'' \<notin> set ''y''
   \<and> \<not> sublist [CHR 0x5C, CHR '']''] ''y''
   \<and> \<not> sublist [CHR 0x5C, CHR '')''] ''y''
   \<and> CHR ''$'' \<notin> set (takeWhile (\<lambda>c. c \<noteq> CHR 0x0A) (rev (''$x$'' @ CHR 0x0A # ''b '')))
   \<and> split_parts (''$x$'' @ CHR 0x0A # ''b $y'')
       = [MathPart Math ''$x$'', MathPart Text (CHR 0x0A # ''b $y'')]
   \<and> type_of (last (split_parts (''$x$'' @ CHR 0x0A # ''b $y''))) = Text
   \<and> suffix ''$y'' (content (last (split_parts (''$x$'' @ CHR 0x0A # ''b $y''))))"
proof -
  have h1: "''$x$'' @ CHR 0x0A # ''b $y'' = (''$x$'' @ CHR 0x0A # ''b '') @ CHR ''$'' # ''y''"
    by simp
  have h2: "CHR ''$'' \<notin> set (takeWhile (\<lambda>c. c \<noteq> CHR 0x0A) ''y'')"
    by simp
  have h3: "CHR ''$'' \<notin> set ''y''"
    by simp
  have h4: "\<not> sublist [CHR 0x5C, CHR '']''] ''y''" "\<not> sublist [CHR 0x5C, CHR '')''] ''y''"
    by (simp_all add: sublist_Cons_right)
  have h5: "CHR ''$'' \<notin> set (takeWhile (\<lambda>c. c \<noteq> CHR 0x0A) (rev (''$x$'' @ CHR 0x0A # ''b '')))"
    by simp
  have sp: "split_parts (''$x$'' @ CHR 0x0A # ''b $y'')
       = [MathPart Math ''$x$'', MathPart Text (CHR 0x0A # ''b $y'')]"
    by code_simp
  from C8_unclosed_dollar [OF h1 h2] h3 h4 h5
  have "type_of (last (split_parts (''$x$'' @ CHR 0x0A # ''b $y''))) = Text
    \<and> suffix ''$y'' (content (last (split_parts (''$x$'' @ CHR 0x0A # ''b $y''))))"
    by blast
  with h1 h2 h3 h4 h5 sp show ?thesis by blast
qed

text \<open>
  The claim as it is worded fails: in \<open>$y \[a\]\<close> the dollar sign at the start is never
  closed, and the rest of the input from it on is not all plain text, since the split ends
  with the math part \<open>\[a\]\<close>.
\<close>

theorem C8_unclosed_dollar_counterexample:
  "hd (''$y '' @ [CHR 0x5C, CHR ''['', CHR ''a'', CHR 0x5C, CHR '']'']) = CHR ''$''
   \<and> CHR ''$'' \<notin> set (tl (''$y '' @ [CHR 0x5C, CHR ''['', CHR ''a'', CHR 0x5C, CHR '']'']))
   \<and> split_parts (''$y '' @ [CHR 0x5C, CHR ''['', CHR ''a'', CHR 0x5C, CHR '']''])
       = [MathPart Text ''$y '',
          MathPart Math [CHR 0x5C, CHR ''['', CHR ''a'', CHR 0x5C, CHR '']'']]
   \<and> type_of (last (split_parts
          (''$y '' @ [CHR 0x5C, CHR ''['', CHR ''a'', CHR 0x5C, CHR '']'']))) = Math"
proof -
  have "split_parts (''$y '' @ [CHR 0x5C, CHR ''['', CHR ''a'', CHR 0x5C, CHR '']''])
       = [MathPart Text ''$y '',
          MathPart Math [CHR 0x5C, CHR ''['', CHR ''a'', CHR 0x5C, CHR '']'']]"
    by code_simp
  then show ?thesis by simp
qed

text \<open>
  Claim C7. For every request whose \<open>content\<close> is missing or empty, the endpoint answers with
  status 400 and an error message, and the server is left as it was: no file has been
  written and no process has been spawned.
\<close>

theorem C7_empty_content_rejected:
  assumes "content' = None \<or> content' = Some []"
  shows "POST pdflatex tempDir now (Body content') sv
           = (Some (400, [(''error'', ''No content provided'')]), sv)"
  using assms by (rule POST_empty)

theorem C7_empty_content_rejected_witness:
  "fst (POST pdflatex_succeeds ''/tmp'' 1700000000123 (Body (Some [])) empty_server)
     = Some (400, [(''error'', ''No content provided'')])
   \<and> spawned (snd (POST pdflatex_succeeds ''/tmp'' 1700000000123 (Body (Some [])) empty_server))
     = []
   \<and> files (snd (POST pdflatex_succeeds ''/tmp'' 1700000000123 (Body (Some [])) empty_server))
     = Map.empty"
proof -
  have "Some [] = None \<or> Some [] = Some ([] :: string)" by simp
  from C7_empty_content_rejected [OF this] show ?thesis
    by (simp add: empty_server_def)
qed

text \<open>
  Claim C5, as the code has it. When the compiler runs, exits with 0 and its output file
  is on disk, the response has status 200 and its body is the object whose field \<open>pdf\<close>
  holds the base64 encoding of the output file. When the compiler runs and exits with
  another code, or exits with 0 without its output file, the response has status 500 and
  its body is the object with an \<open>error\<close> string. Every response that the endpoint sends
  is the object with \<open>pdf\<close> and status 200, or the object with \<open>error\<close> and status 400 or
  500.
\<close>

theorem C5_response:
  "(fst (POST pdflatex tempDir now req sv) = Some (status, b)
      \<longrightarrow> (status = 200 \<and> (\<exists>pdf. b = [(''pdf'', pdf)]))
          \<or> ((status = 400 \<or> status = 500) \<and> (\<exists>message. b = [(''error'', message)])))
   \<and> (content' \<noteq> [] \<and> writable sv
        \<and> fst (run_compiler pdflatex tempDir now content' sv) = Closed res
        \<and> exit_code res = Some 0
        \<and> files (snd (run_compiler pdflatex tempDir now content' sv))
             (outputFile_of tempDir now) = Some output
      \<longrightarrow> fst (POST pdflatex tempDir now (Body (Some content')) sv)
            = Some (200, [(''pdf'', toString_base64 output)]))
   \<and> (content' \<noteq> [] \<and> writable sv
        \<and> fst (run_compiler pdflatex tempDir now content' sv) = Closed res
        \<and> exit_code res \<noteq> Some 0
      \<longrightarrow> fst (POST pdflatex tempDir now (Body (Some content')) sv)
            = Some (500, [(''error'', ''LaTeX compilation failed: ''
                @ (if stderr_text res \<noteq> [] then stderr_text res else stdout_text res))]))
   \<and> (content' \<noteq> [] \<and> writable sv
        \<and> fst (run_compiler pdflatex tempDir now content' sv) = Closed res
        \<and> exit_code res = Some 0
        \<and> files (snd (run_compiler pdflatex tempDir now content' sv))
             (outputFile_of tempDir now) = None
      \<longrightarrow> fst (POST pdflatex tempDir now (Body (Some content')) sv)
            = Some (500, [(''error'', ''ENOENT: no such file or directory, open ''
                @ quoted (outputFile_of tempDir now))]))"
proof (intro conjI impI)
  assume "fst (POST pdflatex tempDir now req sv) = Some (status, b)"
  then show "(status = 200 \<and> (\<exists>pdf. b = [(''pdf'', pdf)]))
          \<or> ((status = 400 \<or> status = 500) \<and> (\<exists>message. b = [(''error'', message)]))"
    by (rule POST_shape)
next
  assume "content' \<noteq> [] \<and> writable sv
        \<and> fst (run_compiler pdflatex tempDir now content' sv) = Closed res
        \<and> exit_code res = Some 0
        \<and> files (snd (run_compiler pdflatex tempDir now content' sv))
             (outputFile_of tempDir now) = Some output"
  then show "fst (POST pdflatex tempDir now (Body (Some content')) sv)
            = Some (200, [(''pdf'', toString_base64 output)])"
    by (simp add: POST_success)
next
  assume "content' \<noteq> [] \<and> writable sv
        \<and> fst (run_compiler pdflatex tempDir now content' sv) = Closed res
        \<and> exit_code res \<noteq> Some 0"
  then show "fst (POST pdflatex tempDir now (Body (Some content')) sv)
            = Some (500, [(''error'', ''LaTeX compilation failed: ''
                @ (if stderr_text res \<noteq> [] then stderr_text res else stdout_text res))])"
    by (simp add: POST_compiler_failure)
next
  assume "content' \<noteq> [] \<and> writable sv
        \<and> fst (run_compiler pdflatex tempDir now content' sv) = Closed res
        \<and> exit_code res = Some 0
        \<and> files (snd (run_compiler pdflatex tempDir now content' sv))
             (outputFile_of tempDir now) = None"
  then show "fst (POST pdflatex tempDir now (Body (Some content')) sv)
            = Some (500, [(''error'', ''ENOENT: no such file or directory, open ''
                @ quoted (outputFile_of tempDir now))])"
    by (simp add: POST_output_missing)
qed

theorem C5_response_witness:
  "good_source \<noteq> [] \<and> writable empty_server
   \<and> fst (run_compiler pdflatex_succeeds ''/tmp'' 1700000000123 good_source empty_server)
        = Closed \<lparr>exit_code = Some 0, stderr_text = [], stdout_text = ''Output written'',
            written = [(''/tmp/latex-1700000000123.pdf'', ''%PDF-1.5''),
                       (''/tmp/latex-1700000000123.log'', ''This is pdfTeX''),
                       (''/tmp/latex-1700000000123.aux'', CHR 0x5C # ''relax'')]\<rparr>
   \<and> files (snd (run_compiler pdflatex_succeeds ''/tmp'' 1700000000123 good_source empty_server))
        (outputFile_of ''/tmp'' 1700000000123) = Some ''%PDF-1.5''
   \<and> fst (POST pdflatex_succeeds ''/tmp'' 1700000000123 (Body (Some good_source)) empty_server)
        = Some (200, [(''pdf'', ''JVBERi0xLjU='')])
   \<and> bad_source \<noteq> []
   \<and> fst (run_compiler pdflatex_fails ''/tmp'' 1700000000123 bad_source empty_server)
        = Closed \<lparr>exit_code = Some 1, stderr_text = [],
            stdout_text = ''! Undefined control sequence.'',
            written = [(''/tmp/latex-1700000000123.log'', ''This is pdfTeX'')]\<rparr>
   \<and> fst (POST pdflatex_fails ''/tmp'' 1700000000123 (Body (Some bad_source)) empty_server)
        = Some (500, [(''error'', ''LaTeX compilation failed: ! Undefined control sequence.'')])
   \<and> fst (run_compiler pdflatex_no_output ''/tmp'' 1700000000123 good_source empty_server)
        = Closed \<lparr>exit_code = Some 0, stderr_text = [], stdout_text = ''No pages of output.'',
            written = [(''/tmp/latex-1700000000123.log'', ''This is pdfTeX''),
                       (''/tmp/latex-1700000000123.aux'', CHR 0x5C # ''relax'')]\<rparr>
   \<and> files (snd (run_compiler pdflatex_no_output ''/tmp'' 1700000000123 good_source
          empty_server)) (outputFile_of ''/tmp'' 1700000000123) = None
   \<and> fst (POST pdflatex_no_output ''/tmp'' 1700000000123 (Body (Some good_source))
          empty_server)
        = Some (500, [(''error'', ''ENOENT: no such file or directory, open ''
            @ quoted ''/tmp/latex-1700000000123.pdf'')])"
proof -
  let ?no = "\<lparr>exit_code = Some 0, stderr_text = [], stdout_text = ''No pages of output.'',
            written = [(''/tmp/latex-1700000000123.log'', ''This is pdfTeX''),
                       (''/tmp/latex-1700000000123.aux'', CHR 0x5C # ''relax'')]\<rparr>"
  let ?ok = "\<lparr>exit_code = Some 0, stderr_text = [], stdout_text = ''Output written'',
            written = [(''/tmp/latex-1700000000123.pdf'', ''%PDF-1.5''),
                       (''/tmp/latex-1700000000123.log'', ''This is pdfTeX''),
                       (''/tmp/latex-1700000000123.aux'', CHR 0x5C # ''relax'')]\<rparr>"
  let ?ko = "\<lparr>exit_code = Some 1, stderr_text = [],
            stdout_text = ''! Undefined control sequence.'',
            written = [(''/tmp/latex-1700000000123.log'', ''This is pdfTeX'')]\<rparr>"
  have ok: "good_source \<noteq> [] \<and> writable empty_server
        \<and> fst (run_compiler pdflatex_succeeds ''/tmp'' 1700000000123 good_source empty_server)
            = Closed ?ok
        \<and> exit_code ?ok = Some 0
        \<and> files (snd (run_compiler pdflatex_succeeds ''/tmp'' 1700000000123 good_source
              empty_server)) (outputFile_of ''/tmp'' 1700000000123) = Some ''%PDF-1.5''"
    by (simp add: good_nonempty writable_empty_server run_succeeds pdflatex_succeeds_def)
  have ko: "bad_source \<noteq> [] \<and> writable empty_server
        \<and> fst (run_compiler pdflatex_fails ''/tmp'' 1700000000123 bad_source empty_server)
            = Closed ?ko
        \<and> exit_code ?ko \<noteq> Some 0"
    by (simp add: bad_nonempty writable_empty_server run_fails pdflatex_fails_def)
  from C5_response [of pdflatex_succeeds "''/tmp''" 1700000000123 _ empty_server _ _
      good_source ?ok "''%PDF-1.5''"] ok
  have r1: "fst (POST pdflatex_succeeds ''/tmp'' 1700000000123 (Body (Some good_source))
      empty_server) = Some (200, [(''pdf'', ''JVBERi0xLjU='')])"
    by (simp add: base64_example)
  from C5_response [of pdflatex_fails "''/tmp''" 1700000000123 _ empty_server _ _
      bad_source ?ko] ko
  have r2: "fst (POST pdflatex_fails ''/tmp'' 1700000000123 (Body (Some bad_source))
      empty_server)
      = Some (500, [(''error'', ''LaTeX compilation failed: ! Undefined control sequence.'')])"
    by simp
  have no: "good_source \<noteq> [] \<and> writable empty_server
        \<and> fst (run_compiler pdflatex_no_output ''/tmp'' 1700000000123 good_source empty_server)
            = Closed ?no
        \<and> exit_code ?no = Some 0
        \<and> files (snd (run_compiler pdflatex_no_output ''/tmp'' 1700000000123 good_source
              empty_server)) (outputFile_of ''/tmp'' 1700000000123) = None"
    by (simp add: good_nonempty writable_empty_server run_no_output pdflatex_no_output_def)
  from C5_response [of pdflatex_no_output "''/tmp''" 1700000000123 _ empty_server _ _
      good_source ?no] no
  have r3: "fst (POST pdflatex_no_output ''/tmp'' 1700000000123 (Body (Some good_source))
      empty_server)
      = Some (500, [(''error'', ''ENOENT: no such file or directory, open ''
            @ quoted ''/tmp/latex-1700000000123.pdf'')])"
    by (simp add: outputFile_example)
  from ok ko no r1 r2 r3 show ?thesis by simp
qed

text \<open>
  The claim as it is worded fails twice. The body of the successful response has the
  field \<open>pdf\<close> and no field \<open>artifact\<close>. And on a machine where the compiler cannot be
  started the request fails without any response: the source file has been written, the
  process has been spawned, and the handler never answers.
\<close>

theorem C5_response_counterexample:
  "fst (POST pdflatex_succeeds ''/tmp'' 1700000000123 (Body (Some good_source)) empty_server)
     = Some (200, [(''pdf'', ''JVBERi0xLjU='')])
   \<and> map_of [(''pdf'', ''JVBERi0xLjU='')] ''artifact'' = None
   \<and> map_of [(''pdf'', ''JVBERi0xLjU='')] ''pdf'' = Some ''JVBERi0xLjU=''
   \<and> fst (POST pdflatex_missing ''/tmp'' 1700000000123 (Body (Some good_source)) empty_server)
     = None
   \<and> spawned (snd (POST pdflatex_missing ''/tmp'' 1700000000123 (Body (Some good_source))
        empty_server)) = [''pdflatex'' # latex_args ''/tmp'' 1700000000123]"
proof -
  let ?ok = "\<lparr>exit_code = Some 0, stderr_text = [], stdout_text = ''Output written'',
            written = [(''/tmp/latex-1700000000123.pdf'', ''%PDF-1.5''),
                       (''/tmp/latex-1700000000123.log'', ''This is pdfTeX''),
                       (''/tmp/latex-1700000000123.aux'', CHR 0x5C # ''relax'')]\<rparr>"
  have f: "fst (run_compiler pdflatex_succeeds ''/tmp'' 1700000000123 good_source empty_server)
      = Closed ?ok"
    by (simp add: run_succeeds pdflatex_succeeds_def)
  have e: "exit_code ?ok = Some 0"
    by simp
  have a: "fst (POST pdflatex_succeeds ''/tmp'' 1700000000123 (Body (Some good_source))
      empty_server) = Some (200, [(''pdf'', ''JVBERi0xLjU='')])"
    using POST_success [OF good_nonempty writable_empty_server f e run_succeeds(2)]
    by (simp add: base64_example)
  have b: "POST pdflatex_missing ''/tmp'' 1700000000123 (Body (Some good_source)) empty_server
      = (None,
         \<lparr>files = Map.empty(''/tmp/latex-1700000000123.tex'' \<mapsto> good_source),
          writable = True,
          spawned = [''pdflatex'' # latex_args ''/tmp'' 1700000000123]\<rparr>)"
    by (simp add: POST_def
        POST_try_launch_failed [OF good_nonempty writable_empty_server run_missing])
  from a b show ?thesis by simp
qed

text \<open>
  Claim C4 asks that the temporary source file and the generated files are removed on every
  exit path. The \<open>close\<close> handler removes them only after the exit code has been checked
  and the output has been read: when the compiler exits with 1, and when it exits with 0
  without an output file, the source file and the log are still on disk after the
  response.
\<close>

theorem C4_failure_leaves_files:
  "fst (POST pdflatex_fails ''/tmp'' 1700000000123 (Body (Some bad_source)) empty_server)
     = Some (500, [(''error'', ''LaTeX compilation failed: ! Undefined control sequence.'')])
   \<and> files (snd (POST pdflatex_fails ''/tmp'' 1700000000123 (Body (Some bad_source))
         empty_server)) ''/tmp/latex-1700000000123.tex'' = Some bad_source
   \<and> files (snd (POST pdflatex_fails ''/tmp'' 1700000000123 (Body (Some bad_source))
         empty_server)) ''/tmp/latex-1700000000123.log'' = Some ''This is pdfTeX''
   \<and> map_option fst (fst (POST pdflatex_no_output ''/tmp'' 1700000000123
         (Body (Some good_source)) empty_server)) = Some 500
   \<and> files (snd (POST pdflatex_no_output ''/tmp'' 1700000000123 (Body (Some good_source))
         empty_server)) ''/tmp/latex-1700000000123.tex'' = Some good_source"
proof -
  let ?ko = "\<lparr>exit_code = Some 1, stderr_text = [],
            stdout_text = ''! Undefined control sequence.'',
            written = [(''/tmp/latex-1700000000123.log'', ''This is pdfTeX'')]\<rparr>"
  let ?no = "\<lparr>exit_code = Some 0, stderr_text = [], stdout_text = ''No pages of output.'',
            written = [(''/tmp/latex-1700000000123.log'', ''This is pdfTeX''),
                       (''/tmp/latex-1700000000123.aux'', CHR 0x5C # ''relax'')]\<rparr>"
  obtain ch sv2 where r0:
    "run_compiler pdflatex_fails ''/tmp'' 1700000000123 bad_source empty_server = (ch, sv2)"
    by (cases "run_compiler pdflatex_fails ''/tmp'' 1700000000123 bad_source empty_server")
  then have ch: "ch = Closed ?ko"
    and sv2: "files sv2 = (Map.empty(''/tmp/latex-1700000000123.tex'' \<mapsto> bad_source,
                  ''/tmp/latex-1700000000123.log'' \<mapsto> ''This is pdfTeX''))"
    by (auto simp: run_compiler_def spawn_def pdflatex_fails_def tempFile_example
        empty_server_def)
  note r = r0 [unfolded ch]
  obtain ch' sv2' where r0':
    "run_compiler pdflatex_no_output ''/tmp'' 1700000000123 good_source empty_server = (ch', sv2')"
    by (cases "run_compiler pdflatex_no_output ''/tmp'' 1700000000123 good_source empty_server")
  then have ch': "ch' = Closed ?no"
    and sv2': "files sv2' = (Map.empty(''/tmp/latex-1700000000123.tex'' \<mapsto> good_source,
                  ''/tmp/latex-1700000000123.log'' \<mapsto> ''This is pdfTeX'',
                  ''/tmp/latex-1700000000123.aux'' \<mapsto> CHR 0x5C # ''relax''))"
    by (auto simp: run_compiler_def spawn_def pdflatex_no_output_def tempFile_example
        empty_server_def)
  note r' = r0' [unfolded ch']
  have a: "fst (POST pdflatex_fails ''/tmp'' 1700000000123 (Body (Some bad_source)) empty_server)
     = Some (500, [(''error'', ''LaTeX compilation failed: ! Undefined control sequence.'')])
   \<and> files (snd (POST pdflatex_fails ''/tmp'' 1700000000123 (Body (Some bad_source))
         empty_server)) ''/tmp/latex-1700000000123.tex'' = Some bad_source
   \<and> files (snd (POST pdflatex_fails ''/tmp'' 1700000000123 (Body (Some bad_source))
         empty_server)) ''/tmp/latex-1700000000123.log'' = Some ''This is pdfTeX''"
    by (simp add: POST_def POST_try_nonempty [OF bad_nonempty writable_empty_server r] sv2)
  have b: "map_option fst (fst (POST pdflatex_no_output ''/tmp'' 1700000000123
         (Body (Some good_source)) empty_server)) = Some 500
   \<and> files (snd (POST pdflatex_no_output ''/tmp'' 1700000000123 (Body (Some good_source))
         empty_server)) ''/tmp/latex-1700000000123.tex'' = Some good_source"
    by (simp add: POST_def POST_try_nonempty [OF good_nonempty writable_empty_server r']
        sv2' readFile_def outputFile_example)
  from a b show ?thesis by simp
qed

text \<open>
  Claim C9. \<open>getDocuments\<close> never throws: in every state of the storage it returns a list.
  The list is empty when the key is absent (also without a window and when the storage
  cannot be read), when the stored text is not valid JSON, and when it is valid JSON that
  is not an array; a stored array is returned as it is.
\<close>

theorem C9_getDocuments_total:
  "(\<exists>docs. getDocuments JSON_parse ls = Inr docs)
   \<and> (safeLocalStorage_getItem ls DOCUMENTS_KEY = None
        \<longrightarrow> getDocuments JSON_parse ls = Inr [])
   \<and> (safeLocalStorage_getItem ls DOCUMENTS_KEY = Some docsJson \<and> JSON_parse docsJson = None
        \<longrightarrow> getDocuments JSON_parse ls = Inr [])
   \<and> (safeLocalStorage_getItem ls DOCUMENTS_KEY = Some docsJson
        \<and> JSON_parse docsJson = Some JOther
        \<longrightarrow> getDocuments JSON_parse ls = Inr [])
   \<and> (safeLocalStorage_getItem ls DOCUMENTS_KEY = Some docsJson \<and> docsJson \<noteq> []
        \<and> JSON_parse docsJson = Some (JArray stored)
        \<longrightarrow> getDocuments JSON_parse ls = Inr stored)"
  using getDocuments_total getDocuments_absent getDocuments_invalid getDocuments_not_array
    getDocuments_array
  by (intro conjI impI) auto

theorem C9_getDocuments_total_witness:
  "safeLocalStorage_getItem (Items Map.empty) DOCUMENTS_KEY = None
   \<and> getDocuments example_parse (Items Map.empty) = Inr []
   \<and> safeLocalStorage_getItem Denied DOCUMENTS_KEY = None
   \<and> getDocuments example_parse Denied = Inr []
   \<and> safeLocalStorage_getItem (Items (Map.empty(DOCUMENTS_KEY \<mapsto> ''{oops''))) DOCUMENTS_KEY
        = Some ''{oops''
   \<and> example_parse ''{oops'' = None
   \<and> getDocuments example_parse (Items (Map.empty(DOCUMENTS_KEY \<mapsto> ''{oops''))) = Inr []
   \<and> safeLocalStorage_getItem (Items (Map.empty(DOCUMENTS_KEY \<mapsto> ''{}''))) DOCUMENTS_KEY
        = Some ''{}''
   \<and> example_parse ''{}'' = Some JOther
   \<and> getDocuments example_parse (Items (Map.empty(DOCUMENTS_KEY \<mapsto> ''{}''))) = Inr []"
proof -
  have a: "safeLocalStorage_getItem (Items Map.empty) DOCUMENTS_KEY = None"
    and b: "safeLocalStorage_getItem Denied DOCUMENTS_KEY = None"
    and c: "safeLocalStorage_getItem (Items (Map.empty(DOCUMENTS_KEY \<mapsto> ''{oops'')))
              DOCUMENTS_KEY = Some ''{oops''"
    and d: "safeLocalStorage_getItem (Items (Map.empty(DOCUMENTS_KEY \<mapsto> ''{}'')))
              DOCUMENTS_KEY = Some ''{}''"
    by (simp_all add: safeLocalStorage_getItem_def)
  have p: "example_parse ''{oops'' = None" and q: "example_parse ''{}'' = Some JOther"
    by (simp_all add: example_parse_def)
  from C9_getDocuments_total [of example_parse "Items Map.empty"] a
  have r1: "getDocuments example_parse (Items Map.empty) = Inr []" by blast
  from C9_getDocuments_total [of example_parse Denied] b
  have r2: "getDocuments example_parse Denied = Inr []" by blast
  from C9_getDocuments_total
    [of example_parse "Items (Map.empty(DOCUMENTS_KEY \<mapsto> ''{oops''))" "''{oops''"] c p
  have r3: "getDocuments example_parse (Items (Map.empty(DOCUMENTS_KEY \<mapsto> ''{oops''))) = Inr []"
    by blast
  from C9_getDocuments_total
    [of example_parse "Items (Map.empty(DOCUMENTS_KEY \<mapsto> ''{}''))" "''{}''"] d q
  have r4: "getDocuments example_parse (Items (Map.empty(DOCUMENTS_KEY \<mapsto> ''{}''))) = Inr []"
    by blast
  from a b c d p q r1 r2 r3 r4 show ?thesis by blast
qed

text \<open>
  Claim C1, as the code has it. The component numbers no request and compares nothing
  when a request ends: whichever request ends last decides what is shown, whatever its
  number. In \<open>Editor.tsx\<close> the preview then shows the PDF of that request, or nothing if it
  failed, and the error is that of the last failure since it was last cleared; in the
  version with saved documents a failure leaves the preview as it was.
\<close>

theorem C1_last_settled_wins:
  "shown_pdf (editor_run s (events @ [Settle n outcome]))
     = (case outcome of Decoded pdf \<Rightarrow> Some pdf | NotOk e \<Rightarrow> None | Threw e \<Rightarrow> None)
   \<and> error (editor_run s (events @ [Settle n outcome]))
     = (case failure_message outcome of
          Some message \<Rightarrow> Some message
        | None \<Rightarrow> error (editor_run s events))
   \<and> shown_pdf (doc_compile_settle outcome d)
     = (case outcome of Decoded pdf \<Rightarrow> Some pdf | NotOk e \<Rightarrow> shown_pdf d
        | Threw e \<Rightarrow> shown_pdf d)"
proof (cases "failure_message outcome")
  case None
  then obtain pdf where o: "outcome = Decoded pdf"
    by (cases outcome rule: failure_message.cases) auto
  have "error (compileLatex_settle (Decoded pdf) t) = error t" for t
    by (simp add: compileLatex_settle_def createObjectURL_def revokeObjectURL_def Let_def
        split: option.splits)
  then show ?thesis
    by (simp add: o editor_run_snoc shown_after_success doc_shown_after_success)
next
  case (Some message)
  have "shown_pdf (doc_compile_settle outcome d) = shown_pdf d"
    by (rule doc_shown_after_failure [OF Some])
  moreover have "error (compileLatex_settle outcome t) = Some message" for t
    by (simp add: settle_failure [OF Some] compile_failed_def)
  ultimately show ?thesis
    using Some shown_after_failure [OF Some]
    by (cases outcome) (auto simp: editor_run_snoc)
qed

text \<open>
  Two requests overlap. The second, for the newer source, ends first and its PDF is shown;
  then the first ends, and its PDF replaces the newer one.
\<close>

theorem C1_last_settled_wins_witness:
  "shown_pdf (editor_run initial_editor
      ([Issue 1 good_source, Issue 2 revised_source, Settle 2 (Decoded ''%PDF-second'')]
        @ [Settle 1 (Decoded ''%PDF-first'')])) = Some ''%PDF-first''"
  using C1_last_settled_wins
    [of initial_editor
      "[Issue 1 good_source, Issue 2 revised_source, Settle 2 (Decoded ''%PDF-second'')]"
      1 "Decoded ''%PDF-first''"]
  by simp

theorem C1_stale_result_counterexample:
  "shown_pdf (editor_run initial_editor
      [Issue 1 good_source, Issue 2 revised_source, Settle 2 (Decoded ''%PDF-second'')])
     = Some ''%PDF-second''
   \<and> shown_pdf (editor_run initial_editor
      [Issue 1 good_source, Issue 2 revised_source, Settle 2 (Decoded ''%PDF-second''),
       Settle 1 (Decoded ''%PDF-first'')])
     = Some ''%PDF-first''
   \<and> Some ''%PDF-first'' \<noteq> Some ''%PDF-second''"
  by (simp add: editor_run_def compileLatex_start_def compileLatex_settle_def
      createObjectURL_def revokeObjectURL_def shown_pdf_def initial_editor_def is_blank_def
      good_source_def revised_source_def Let_def)

text \<open>
  Claim C3, as the code has it. When a request fails in \<open>Editor.tsx\<close>, the error text is
  set and the handle of the last good PDF is dropped: \<open>pdfUrl\<close> and the reference are
  cleared, so the preview has nothing to show, while the object URL itself is not revoked.
  In the version with saved documents a failure sets the error and leaves the URL, the
  reference and the registry as they were, so there the last good PDF stays available
  next to the error.
\<close>

theorem C3_failure_keeps_resource:
  assumes "failure_message outcome = Some message"
  shows "error (compileLatex_settle outcome s) = Some message
    \<and> pdfUrl (compileLatex_settle outcome s) = None
    \<and> pdfUrlRef (compileLatex_settle outcome s) = None
    \<and> objectUrls (compileLatex_settle outcome s) = objectUrls s
    \<and> error (doc_compile_settle outcome d)
        = Some ''Failed to compile LaTeX. Please check your syntax.''
    \<and> pdfUrl (doc_compile_settle outcome d) = pdfUrl d
    \<and> pdfUrlRef (doc_compile_settle outcome d) = pdfUrlRef d
    \<and> objectUrls (doc_compile_settle outcome d) = objectUrls d
    \<and> shown_pdf (doc_compile_settle outcome d) = shown_pdf d"
  by (simp add: settle_failure [OF assms] doc_settle_failure [OF assms] compile_failed_def
      doc_shown_after_failure [OF assms, unfolded doc_settle_failure [OF assms]])

theorem C3_failure_keeps_resource_witness:
  "failure_message (NotOk ''LaTeX compilation failed: ! Undefined control sequence.'')
     = Some ''LaTeX compilation failed: ! Undefined control sequence.''
   \<and> error (compileLatex_settle
        (NotOk ''LaTeX compilation failed: ! Undefined control sequence.'')
        (compileLatex_settle (Decoded ''%PDF-first'') initial_editor))
     = Some ''LaTeX compilation failed: ! Undefined control sequence.''
   \<and> objectUrls (compileLatex_settle
        (NotOk ''LaTeX compilation failed: ! Undefined control sequence.'')
        (compileLatex_settle (Decoded ''%PDF-first'') initial_editor)) 0
     = Some ''%PDF-first''"
proof -
  have f: "failure_message (NotOk ''LaTeX compilation failed: ! Undefined control sequence.'')
     = Some ''LaTeX compilation failed: ! Undefined control sequence.''"
    by simp
  have "objectUrls (compileLatex_settle (Decoded ''%PDF-first'') initial_editor) 0
      = Some ''%PDF-first''"
    by (simp add: compileLatex_settle_def createObjectURL_def initial_editor_def)
  with C3_failure_keeps_resource
    [OF f, of "compileLatex_settle (Decoded ''%PDF-first'') initial_editor"] f
  show ?thesis by simp
qed

text \<open>
  The claim as it is worded fails in \<open>Editor.tsx\<close>: after a success followed by a failure
  the state holds the error but no handle of the last good PDF, so the preview can no
  longer show it.
\<close>

theorem C3_last_good_dropped_counterexample:
  "shown_pdf (editor_run initial_editor
      [Issue 1 good_source, Settle 1 (Decoded ''%PDF-first'')]) = Some ''%PDF-first''
   \<and> shown_pdf (editor_run initial_editor
      [Issue 1 good_source, Settle 1 (Decoded ''%PDF-first''),
       Issue 2 bad_source, Settle 2 (NotOk ''LaTeX compilation failed'')]) = None
   \<and> pdfUrl (editor_run initial_editor
      [Issue 1 good_source, Settle 1 (Decoded ''%PDF-first''),
       Issue 2 bad_source, Settle 2 (NotOk ''LaTeX compilation failed'')]) = None
   \<and> pdfUrlRef (editor_run initial_editor
      [Issue 1 good_source, Settle 1 (Decoded ''%PDF-first''),
       Issue 2 bad_source, Settle 2 (NotOk ''LaTeX compilation failed'')]) = None
   \<and> error (editor_run initial_editor
      [Issue 1 good_source, Settle 1 (Decoded ''%PDF-first''),
       Issue 2 bad_source, Settle 2 (NotOk ''LaTeX compilation failed'')])
     = Some ''LaTeX compilation failed''"
  by (simp add: editor_run_def compileLatex_start_def compileLatex_settle_def compile_failed_def
      createObjectURL_def revokeObjectURL_def shown_pdf_def initial_editor_def is_blank_def
      good_source_def bad_source_def Let_def)

text \<open>
  Claim C6, as the code has it. \<open>compileLatex\<close> saves the document before anything is
  compiled, and the compilation depends on the save: when \<open>saveDocument\<close> throws, no timer
  is armed and nothing is posted to the compile endpoint, \<open>isCompiling\<close> is cleared and the
  error reads "Failed to save document"; when it returns, the timer is armed with the
  content of the saved document.
\<close>

theorem C6_compile_depends_on_save:
  assumes "editor_content s \<noteq> []"
  shows "(saveDocument JSON_parse JSON_stringify now millis (storage s) (docToSave s) = Inl e
      \<longrightarrow> compileTimeout (doc_compileLatex JSON_parse JSON_stringify now millis s) = None
        \<and> fst (doc_timeout_fires (doc_compileLatex JSON_parse JSON_stringify now millis s)) = None
        \<and> \<not> isCompiling (doc_compileLatex JSON_parse JSON_stringify now millis s)
        \<and> error (doc_compileLatex JSON_parse JSON_stringify now millis s)
            = Some ''Failed to save document''
        \<and> storage (doc_compileLatex JSON_parse JSON_stringify now millis s) = storage s)
    \<and> (saveDocument JSON_parse JSON_stringify now millis (storage s) (docToSave s)
          = Inr (savedDoc, ls)
      \<longrightarrow> compileTimeout (doc_compileLatex JSON_parse JSON_stringify now millis s)
            = Some (doc_content savedDoc)
        \<and> isCompiling (doc_compileLatex JSON_parse JSON_stringify now millis s)
        \<and> document (doc_compileLatex JSON_parse JSON_stringify now millis s) = Some savedDoc
        \<and> storage (doc_compileLatex JSON_parse JSON_stringify now millis s) = ls)"
  by (simp add: doc_compileLatex_save_fails [OF assms] doc_compileLatex_save_ok [OF assms]
      doc_timeout_fires_def)

theorem C6_compile_depends_on_save_witness:
  "editor_content new_doc_editor \<noteq> []
   \<and> compileTimeout (doc_compileLatex example_parse example_stringify
        ''2024-01-02T00:00:00.000Z'' 1700000000123 new_doc_editor) = Some good_source
   \<and> isCompiling (doc_compileLatex example_parse example_stringify
        ''2024-01-02T00:00:00.000Z'' 1700000000123 new_doc_editor)
   \<and> editor_content orphaned_editor \<noteq> []
   \<and> saveDocument example_parse example_stringify ''2024-01-02T00:00:00.000Z'' 1700000000123
        (storage orphaned_editor) (docToSave orphaned_editor)
      = Inl (Error ''Document not found'')
   \<and> compileTimeout (doc_compileLatex example_parse example_stringify
        ''2024-01-02T00:00:00.000Z'' 1700000000123 orphaned_editor) = None"
proof -
  have n: "editor_content new_doc_editor \<noteq> []" and o: "editor_content orphaned_editor \<noteq> []"
    by (simp_all add: new_doc_editor_def orphaned_editor_def good_nonempty)
  from save_new [of example_parse example_stringify "''2024-01-02T00:00:00.000Z''" 1700000000123]
  obtain savedDoc ls where s: "saveDocument example_parse example_stringify
      ''2024-01-02T00:00:00.000Z'' 1700000000123 (storage new_doc_editor)
      (docToSave new_doc_editor) = Inr (savedDoc, ls)"
    and c: "doc_content savedDoc = good_source"
    by blast
  from C6_compile_depends_on_save [OF n, of example_parse example_stringify
      "''2024-01-02T00:00:00.000Z''" 1700000000123 _ savedDoc ls] s c
  have r1: "compileTimeout (doc_compileLatex example_parse example_stringify
        ''2024-01-02T00:00:00.000Z'' 1700000000123 new_doc_editor) = Some good_source
     \<and> isCompiling (doc_compileLatex example_parse example_stringify
        ''2024-01-02T00:00:00.000Z'' 1700000000123 new_doc_editor)"
    by simp
  note f = save_orphaned [of example_parse example_stringify "''2024-01-02T00:00:00.000Z''"
      1700000000123]
  from C6_compile_depends_on_save [OF o, of example_parse example_stringify
      "''2024-01-02T00:00:00.000Z''" 1700000000123 "Error ''Document not found''"] f
  have r2: "compileTimeout (doc_compileLatex example_parse example_stringify
        ''2024-01-02T00:00:00.000Z'' 1700000000123 orphaned_editor) = None"
    by simp
  from n o r1 f r2 show ?thesis by simp
qed

text \<open>
  The claim as it is worded fails: the save of the orphaned editor throws "Document not
  found", and \<open>compileLatex\<close> returns without arming its timer, so nothing is compiled.
\<close>

theorem C6_save_failure_blocks_compile_counterexample:
  "editor_content orphaned_editor \<noteq> []
   \<and> compileTimeout (doc_compileLatex example_parse example_stringify
        ''2024-01-02T00:00:00.000Z'' 1700000000123 orphaned_editor) = None
   \<and> fst (doc_timeout_fires (doc_compileLatex example_parse example_stringify
        ''2024-01-02T00:00:00.000Z'' 1700000000123 orphaned_editor)) = None
   \<and> \<not> isCompiling (doc_compileLatex example_parse example_stringify
        ''2024-01-02T00:00:00.000Z'' 1700000000123 orphaned_editor)
   \<and> error (doc_compileLatex example_parse example_stringify
        ''2024-01-02T00:00:00.000Z'' 1700000000123 orphaned_editor)
      = Some ''Failed to save document''"
proof -
  have o: "editor_content orphaned_editor \<noteq> []"
    by (simp add: orphaned_editor_def good_nonempty)
  from doc_compileLatex_save_fails [OF o save_orphaned] o show ?thesis
    by (simp add: doc_timeout_fires_def)
qed

end
